theory Spec2Isabelle
  imports Main "HOL-Library.Sublist" "HOL-Library.Char_ord" "HOL-Library.List_Lexorder"
    "HOL-Library.AList"
begin

section \<open>JavaScript strings\<close>

text \<open>
  A JavaScript string is a sequence of UTF-16 code units. The model uses \<^typ>\<open>string\<close>,
  one \<^typ>\<open>char\<close> per code unit, and so covers the strings whose code units are below 256
  (ASCII and Latin-1). The character classes below are the ECMAScript ones cut down to
  that range.
\<close>

definition isDigit :: "char \<Rightarrow> bool" where
  \<comment> \<open>\<open>\d\<close>: the ten ASCII digits.\<close>
  "isDigit c = (c \<in> set ''0123456789'')"

definition isLineTerminator :: "char \<Rightarrow> bool" where
  \<comment> \<open>LF and CR (U+2028 and U+2029 lie outside the modelled range).\<close>
  "isLineTerminator c = (c = CHR 0x0A \<or> c = CHR 0x0D)"

definition isSpace :: "char \<Rightarrow> bool" where
  \<comment> \<open>\<open>\s\<close>, also what \<open>trim\<close> and \<open>trimStart\<close> strip: TAB, LF, VT, FF, CR, SPACE, NBSP.\<close>
  "isSpace c = (c = CHR 0x09 \<or> c = CHR 0x0A \<or> c = CHR 0x0B \<or> c = CHR 0x0C
                \<or> c = CHR 0x0D \<or> c = CHR 0x20 \<or> c = CHR 0xA0)"

definition isDot :: "char \<Rightarrow> bool" where
  \<comment> \<open>\<open>.\<close> without the \<open>s\<close> flag: any code unit but a line terminator.\<close>
  "isDot c = (\<not> isLineTerminator c)"

text \<open>
  \<open>String.prototype.toLowerCase\<close> on the strings of the modelled range. There the Unicode
  lower-case mapping works code unit by code unit and stays in the range: A to Z and the
  Latin-1 capitals U+00C0 to U+00DE, but for the multiplication sign U+00D7, move up by 32,
  and every other code unit below 256 is left as it is. The rules that look at the context
  or change the length (\<open>Final_Sigma\<close> for U+03A3, U+0130) belong to code units from 256 on,
  which the model does not cover.
\<close>

definition toLowerChar :: "char \<Rightarrow> char" where
  \<comment> \<open>Moving up by 32 is setting bit 5, which is clear in all these code units.\<close>
  "toLowerChar c =
     (let n = (of_char c :: nat)
      in if (65 \<le> n \<and> n \<le> 90) \<or> (192 \<le> n \<and> n \<le> 222 \<and> n \<noteq> 215)
         then Char (digit0 c) (digit1 c) (digit2 c) (digit3 c) (digit4 c) True (digit6 c) (digit7 c)
         else c)"

definition toLowerCase :: "string \<Rightarrow> string" where
  "toLowerCase s = map toLowerChar s"

definition trimStart :: "string \<Rightarrow> string" where
  "trimStart s = dropWhile isSpace s"

definition trim :: "string \<Rightarrow> string" where
  "trim s = rev (dropWhile isSpace (rev (dropWhile isSpace s)))"

definition startsWith :: "string \<Rightarrow> string \<Rightarrow> bool" where
  "startsWith s p = prefix p s"

definition includes_str :: "string \<Rightarrow> string \<Rightarrow> bool" where
  \<comment> \<open>\<open>String.prototype.includes\<close>.\<close>
  "includes_str s q = sublist q s"

definition padStart :: "nat \<Rightarrow> char \<Rightarrow> string \<Rightarrow> string" where
  "padStart n c s = replicate (n - length s) c @ s"

section \<open>Frontmatter injection (\<open>addFrontmatter\<close>, main.ts)\<close>

text \<open>
  \<open>/^---\n([\s\S]*?)\n---\n([\s\S]*)$/\<close>: after the opening line the lazy group grows by one
  code unit at a time until the closing delimiter \<open>d\<close> follows; the second group is the
  rest.
\<close>

fun lazyUntil :: "string \<Rightarrow> string \<Rightarrow> string \<Rightarrow> (string \<times> string) option" where
  "lazyUntil d acc rest =
     (if prefix d rest then Some (acc, drop (length d) rest)
      else (case rest of [] \<Rightarrow> None | c # cs \<Rightarrow> lazyUntil d (acc @ [c]) cs))"

definition matchFrontmatter :: "string \<Rightarrow> (string \<times> string) option" where
  "matchFrontmatter content =
     (if prefix ''---\<newline>'' content
      then lazyUntil ''\<newline>---\<newline>'' [] (drop 4 content) else None)"

text \<open>
  \<open>/^key:/m.test(s)\<close>: the engine tries every start index; with the \<open>m\<close> flag \<open>^\<close> holds at
  index 0 and right after a line terminator. The flag \<open>b\<close> says whether \<open>^\<close> holds here.
\<close>

fun testAtLineStart :: "string \<Rightarrow> bool \<Rightarrow> string \<Rightarrow> bool" where
  "testAtLineStart p b [] = (b \<and> prefix p [])"
| "testAtLineStart p b (c # cs) =
     ((b \<and> prefix p (c # cs)) \<or> testAtLineStart p (isLineTerminator c) cs)"

definition testMultiline :: "string \<Rightarrow> string \<Rightarrow> bool" where
  "testMultiline p s = testAtLineStart p True s"

definition addFrontmatter :: "string \<Rightarrow> string \<Rightarrow> string \<Rightarrow> string" where
  "addFrontmatter content title date =
     (let hasFrontmatter = startsWith (trimStart content) ''---'';
          fresh = ''---\<newline>title: '' @ title @ ''\<newline>date: '' @ date
                    @ ''\<newline>---\<newline>\<newline>'' @ content
      in if hasFrontmatter then
           (case matchFrontmatter content of
              Some (existingFrontmatter, bodyContent) \<Rightarrow>
                (let hasDate = testMultiline ''date:'' existingFrontmatter;
                     hasTitle = testMultiline ''title:'' existingFrontmatter;
                     fm1 = (if \<not> hasDate then ''date: '' @ date @ ''\<newline>'' @ existingFrontmatter
                            else existingFrontmatter);
                     fm2 = (if \<not> hasTitle then ''title: '' @ title @ ''\<newline>'' @ fm1 else fm1)
                 in ''---\<newline>'' @ fm2 @ ''\<newline>---\<newline>'' @ bodyContent)
            | None \<Rightarrow> fresh)
         else fresh)"

section \<open>The vault as the plugin sees it\<close>

text \<open>
  The host's \<open>TAbstractFile\<close> is either a \<open>TFile\<close> or a \<open>TFolder\<close>; the plugin reads a file's
  \<open>basename\<close> and \<open>extension\<close> and a folder's \<open>children\<close>.
\<close>

datatype abstract_file =
    TFile (path: string) (basename: string) (extension: string)
  | TFolder (path: string) (children: "abstract_file list")

record settings =
  baseFolder :: string
  templatePath :: string

text \<open>
  What the host application and the JavaScript runtime provide is a parameter of the model:
  \<open>normalizePath\<close>, \<open>String.prototype.localeCompare\<close>, the vault operations over a host
  state \<open>'v\<close>, and \<open>openFile\<close> of the workspace leaf. An operation that rejects returns
  \<open>Inl\<close> of the error's message.
\<close>

record 'v host =
  normalizePath :: "string \<Rightarrow> string"
  localeCompare :: "string \<Rightarrow> string \<Rightarrow> int"
  getAbstractFileByPath :: "'v \<Rightarrow> string \<Rightarrow> abstract_file option"
  createFolder :: "'v \<Rightarrow> string \<Rightarrow> string + 'v"
  create :: "'v \<Rightarrow> string \<Rightarrow> string \<Rightarrow> string + (abstract_file \<times> 'v)"
  read :: "'v \<Rightarrow> abstract_file \<Rightarrow> string + string"
  openFile :: "'v \<Rightarrow> abstract_file \<Rightarrow> string + unit"

text \<open>
  \<open>Array.prototype.sort\<close> with a comparator is stable; for a consistent comparator its
  result is that of a stable insertion sort, an element going in front of the first one
  it does not compare greater than.
\<close>

fun insertBy :: "('a \<Rightarrow> 'a \<Rightarrow> int) \<Rightarrow> 'a \<Rightarrow> 'a list \<Rightarrow> 'a list" where
  "insertBy cmp x [] = [x]"
| "insertBy cmp x (y # ys) = (if cmp x y \<le> 0 then x # y # ys else y # insertBy cmp x ys)"

fun jsSort :: "('a \<Rightarrow> 'a \<Rightarrow> int) \<Rightarrow> 'a list \<Rightarrow> 'a list" where
  "jsSort cmp [] = []"
| "jsSort cmp (x # xs) = insertBy cmp x (jsSort cmp xs)"

section \<open>Collecting past titles (\<open>getPastNoteTitles\<close>, main.ts)\<close>

definition isDate :: "string \<Rightarrow> bool" where
  \<comment> \<open>\<open>\d{4}-\d{2}-\d{2}\<close> against a whole string.\<close>
  "isDate d =
     (length d = 10 \<and> list_all isDigit (take 4 d) \<and> d ! 4 = CHR ''-''
      \<and> list_all isDigit (take 2 (drop 5 d)) \<and> d ! 7 = CHR ''-''
      \<and> list_all isDigit (drop 8 d))"

text \<open>
  \<open>/^(\d{4}-\d{2}-\d{2})\s+(.+)$/\<close>. The greedy \<open>\s+\<close> first takes the whole run of white space
  after the date; while \<open>(.+)$\<close> fails on what is left (nothing is left, or a line
  terminator is in it), \<open>\s+\<close> gives one code unit back, down to one.
\<close>

fun backtrackSpaces :: "nat \<Rightarrow> string \<Rightarrow> string option" where
  "backtrackSpaces 0 rest = None"
| "backtrackSpaces (Suc k) rest =
     (let t = drop (Suc k) rest
      in if t \<noteq> [] \<and> list_all isDot t then Some t else backtrackSpaces k rest)"

definition datePattern :: "string \<Rightarrow> (string \<times> string) option" where
  "datePattern fileName =
     (if isDate (take 10 fileName)
      then (let rest = drop 10 fileName
            in map_option (Pair (take 10 fileName))
                 (backtrackSpaces (length (takeWhile isSpace rest)) rest))
      else None)"

text \<open>
  \<open>titleDates\<close> is a \<open>Map\<close>: an association list in insertion order, where \<open>set\<close> on a key
  already present replaces its value in place (\<^const>\<open>AList.update\<close>).
\<close>

fun extractTitles ::
  "abstract_file list \<Rightarrow> (string \<times> string) list \<Rightarrow> (string \<times> string) list" where
  "extractTitles [] titleDates = titleDates"
| "extractTitles (TFile p fileName ext # rest) titleDates =
     extractTitles rest
       (if ext = ''md'' then
          (case datePattern fileName of
             Some (date, title) \<Rightarrow>
               (case map_of titleDates title of
                  None \<Rightarrow> AList.update title date titleDates
                | Some existingDate \<Rightarrow>
                    if existingDate = [] \<or> existingDate < date
                    then AList.update title date titleDates else titleDates)
           | None \<Rightarrow> titleDates)
        else titleDates)"
| "extractTitles (TFolder p cs # rest) titleDates =
     extractTitles rest (extractTitles cs titleDates)"

definition getPastNoteTitles :: "'v host \<Rightarrow> settings \<Rightarrow> 'v \<Rightarrow> string list" where
  "getPastNoteTitles h s v =
     (case getAbstractFileByPath h v (normalizePath h (baseFolder s)) of
        None \<Rightarrow> []
      | Some bf \<Rightarrow>
          (let titleDates = (case bf of TFolder p cs \<Rightarrow> extractTitles cs []
                                      | TFile p b e \<Rightarrow> [])
           in map fst (jsSort (\<lambda>a b. localeCompare h (snd b) (snd a)) titleDates)))"

section \<open>Collecting past titles (\<open>getPastNoteTitles\<close>, src/unnamed/part\_000)\<close>

text \<open>
  \<open>fileName.replace(/^\d{4}-\d{2}-\d{2}\s+/, '')\<close>: the date and the whole run of white space
  after it are cut off; a name the pattern does not match comes back as it is.
\<close>

definition replaceDatePrefix :: "string \<Rightarrow> string" where
  "replaceDatePrefix fileName =
     (let rest = drop 10 fileName
      in if isDate (take 10 fileName) \<and> takeWhile isSpace rest \<noteq> []
         then dropWhile isSpace rest else fileName)"

text \<open>\<open>titles\<close> is a \<open>Set\<close>: a list in insertion order, \<open>add\<close> leaving a present element alone.\<close>

definition setAdd :: "'a \<Rightarrow> 'a list \<Rightarrow> 'a list" where
  "setAdd x xs = (if x \<in> set xs then xs else xs @ [x])"

fun extractTitles_p0 :: "abstract_file list \<Rightarrow> string list \<Rightarrow> string list" where
  "extractTitles_p0 [] titles = titles"
| "extractTitles_p0 (TFile p fileName ext # rest) titles =
     extractTitles_p0 rest
       (if ext = ''md'' then
          (let titleMatch = replaceDatePrefix fileName
           in if titleMatch \<noteq> [] \<and> titleMatch \<noteq> fileName then setAdd titleMatch titles
              else titles)
        else titles)"
| "extractTitles_p0 (TFolder p cs # rest) titles =
     extractTitles_p0 rest (extractTitles_p0 cs titles)"

definition getPastNoteTitles_p0 :: "'v host \<Rightarrow> settings \<Rightarrow> 'v \<Rightarrow> string list" where
  "getPastNoteTitles_p0 h s v =
     (case getAbstractFileByPath h v (normalizePath h (baseFolder s)) of
        None \<Rightarrow> []
      | Some bf \<Rightarrow>
          (let titles = (case bf of TFolder p cs \<Rightarrow> extractTitles_p0 cs []
                                  | TFile p b e \<Rightarrow> [])
           in jsSort (\<lambda>a b. localeCompare h a b) titles))"

section \<open>Creating a note (\<open>createQuickNote\<close>, main.ts)\<close>

text \<open>
  The fields of a \<open>Date\<close> the plugin reads, in local time: \<open>getMonth\<close> counts from 0.
  \<open>Number.prototype.toString\<close> of an integer is its decimal numeral.
\<close>

record jsDate =
  getFullYear :: int
  getMonth :: nat
  getDate :: nat

definition digitChar :: "nat \<Rightarrow> char" where
  "digitChar n = ''0123456789'' ! (n mod 10)"

fun natToString :: "nat \<Rightarrow> string" where
  "natToString n =
     (if n < 10 then [digitChar n] else natToString (n div 10) @ [digitChar (n mod 10)])"

declare natToString.simps [simp del]

definition intToString :: "int \<Rightarrow> string" where
  "intToString i = (if i < 0 then CHR ''-'' # natToString (nat (- i)) else natToString (nat i))"

definition formatDate :: "jsDate \<Rightarrow> string" where
  "formatDate date =
     (let year = intToString (getFullYear date);
          month = padStart 2 CHR ''0'' (natToString (getMonth date + 1));
          day = padStart 2 CHR ''0'' (natToString (getDate date))
      in year @ ''-'' @ month @ ''-'' @ day)"

text \<open>
  The effects of a run are kept as a trace next to the host's vault state: a call is
  recorded when it is made, whether it then rejects or not. An \<open>async\<close> method returns its
  value or the message of the error it rejects with; inside the \<open>try\<close> block of the callback
  every awaited call that rejects (\<open>createFolder\<close>, \<open>read\<close>, \<open>create\<close>, \<open>openFile\<close>) ends in
  the \<open>catch\<close> block.
\<close>

datatype call =
    CreateFolder string
  | Create string string
  | OpenFile abstract_file
  | Notice string
  | ConsoleWarn string
  | ConsoleError string string

record 'v state =
  vault :: 'v
  trace :: "call list"

definition emit :: "call list \<Rightarrow> 'v state \<Rightarrow> 'v state" where
  "emit cs st = st\<lparr>trace := trace st @ cs\<rparr>"

definition ensureFolderExists ::
  "'v host \<Rightarrow> string \<Rightarrow> 'v state \<Rightarrow> (string + unit) \<times> 'v state" where
  "ensureFolderExists h folderPath st =
     (case getAbstractFileByPath h (vault st) folderPath of
        Some folder \<Rightarrow> (Inr (), st)
      | None \<Rightarrow>
          (case createFolder h (vault st) folderPath of
             Inl err \<Rightarrow> (Inl err, emit [CreateFolder folderPath] st)
           | Inr v' \<Rightarrow> (Inr (), emit [CreateFolder folderPath] (st\<lparr>vault := v'\<rparr>))))"

definition getNoteContent ::
  "'v host \<Rightarrow> settings \<Rightarrow> string \<Rightarrow> string \<Rightarrow> 'v state \<Rightarrow> (string + string) \<times> 'v state" where
  "getNoteContent h s title date st =
     (if templatePath s \<noteq> [] then
        (case getAbstractFileByPath h (vault st) (normalizePath h (templatePath s)) of
           Some (TFile p b e) \<Rightarrow>
             (case read h (vault st) (TFile p b e) of
                Inl err \<Rightarrow> (Inl err, st)
              | Inr content \<Rightarrow> (Inr (addFrontmatter content title date), st))
         | _ \<Rightarrow>
             (Inr (addFrontmatter [] title date),
              emit [ConsoleWarn (''Template file not found: '' @ templatePath s)] st))
      else (Inr (addFrontmatter [] title date), st))"

definition onSubmit :: "'v host \<Rightarrow> settings \<Rightarrow> jsDate \<Rightarrow> string \<Rightarrow> 'v state \<Rightarrow> 'v state" where
  \<comment> \<open>The callback \<open>createQuickNote\<close> hands to the modal.\<close>
  "onSubmit h s now title st =
     (let dateStr = formatDate now;
          year = intToString (getFullYear now);
          month = padStart 2 CHR ''0'' (natToString (getMonth now + 1));
          folderPath = normalizePath h (baseFolder s @ ''/'' @ year @ ''/'' @ month);
          fileName = dateStr @ '' '' @ title @ ''.md'';
          filePath = normalizePath h (folderPath @ ''/'' @ fileName);
          failed = (\<lambda>err st'. emit [ConsoleError ''Error creating quick note:'' err,
                                      Notice (''Failed to create note: '' @ err)] st')
      in case getAbstractFileByPath h (vault st) filePath of
           Some (TFile p b e) \<Rightarrow>
             (case openFile h (vault st) (TFile p b e) of
                Inl err \<Rightarrow> failed err (emit [OpenFile (TFile p b e)] st)
              | Inr u \<Rightarrow>
                  emit [OpenFile (TFile p b e), Notice (''Opened existing note: '' @ title)] st)
         | _ \<Rightarrow>
             (case ensureFolderExists h folderPath st of
                (Inl err, st1) \<Rightarrow> failed err st1
              | (Inr u, st1) \<Rightarrow>
                  (case getNoteContent h s title dateStr st1 of
                     (Inl err, st2) \<Rightarrow> failed err st2
                   | (Inr content, st2) \<Rightarrow>
                       (case create h (vault st2) filePath content of
                          Inl err \<Rightarrow> failed err (emit [Create filePath content] st2)
                        | Inr (file, v') \<Rightarrow>
                            (case openFile h v' file of
                               Inl err \<Rightarrow>
                                 failed err (emit [Create filePath content, OpenFile file]
                                               (st2\<lparr>vault := v'\<rparr>))
                             | Inr u \<Rightarrow>
                                 emit [Create filePath content, OpenFile file,
                                       Notice (''Created note: '' @ title)]
                                   (st2\<lparr>vault := v'\<rparr>))))))"

definition submit :: "(string \<Rightarrow> 'v state \<Rightarrow> 'v state) \<Rightarrow> string \<Rightarrow> 'v state \<Rightarrow> 'v state" where
  \<comment> \<open>\<open>TitleInputModal.submit\<close>, on the text in the input.\<close>
  "submit callback inputValue st =
     (let title = trim inputValue
      in if title \<noteq> [] then callback title st
         else emit [Notice ''Please enter a note title''] st)"

definition createQuickNote ::
  "'v host \<Rightarrow> settings \<Rightarrow> jsDate \<Rightarrow> string \<Rightarrow> 'v state \<Rightarrow> 'v state" where
  \<comment> \<open>The modal is opened with the past titles; the user submits \<open>inputValue\<close> at time \<open>now\<close>.\<close>
  "createQuickNote h s now inputValue st =
     (let pastTitles = getPastNoteTitles h s (vault st)
      in submit (onSubmit h s now) inputValue st)"

definition getSuggestions :: "string list \<Rightarrow> string \<Rightarrow> string list" where
  \<comment> \<open>\<open>TitleSuggest.getSuggestions\<close>.\<close>
  "getSuggestions pastTitles query =
     (if query = [] \<or> length (trim query) = 0 then []
      else (let lowerQuery = toLowerCase query
            in filter (\<lambda>title. includes_str (toLowerCase title) lowerQuery) pastTitles))"

section \<open>Creating a note (\<open>createQuickNote\<close>, src/unnamed/part\_000)\<close>

definition getNoteContent_p0 ::
  "'v host \<Rightarrow> settings \<Rightarrow> 'v state \<Rightarrow> (string + string) \<times> 'v state" where
  "getNoteContent_p0 h s st =
     (if templatePath s \<noteq> [] then
        (case getAbstractFileByPath h (vault st) (normalizePath h (templatePath s)) of
           Some (TFile p b e) \<Rightarrow>
             (case read h (vault st) (TFile p b e) of
                Inl err \<Rightarrow> (Inl err, st)
              | Inr content \<Rightarrow> (Inr content, st))
         | _ \<Rightarrow>
             (Inr [], emit [ConsoleWarn (''Template file not found: '' @ templatePath s)] st))
      else (Inr [], st))"

definition onSubmit_p0 :: "'v host \<Rightarrow> settings \<Rightarrow> jsDate \<Rightarrow> string \<Rightarrow> 'v state \<Rightarrow> 'v state" where
  "onSubmit_p0 h s now title st =
     (let dateStr = formatDate now;
          year = intToString (getFullYear now);
          month = padStart 2 CHR ''0'' (natToString (getMonth now + 1));
          folderPath = normalizePath h (baseFolder s @ ''/'' @ year @ ''/'' @ month);
          fileName = dateStr @ '' '' @ title @ ''.md'';
          filePath = normalizePath h (folderPath @ ''/'' @ fileName);
          failed = (\<lambda>err st'. emit [ConsoleError ''Error creating quick note:'' err,
                                      Notice (''Failed to create note: '' @ err)] st')
      in case getAbstractFileByPath h (vault st) filePath of
           Some (TFile p b e) \<Rightarrow>
             (case openFile h (vault st) (TFile p b e) of
                Inl err \<Rightarrow> failed err (emit [OpenFile (TFile p b e)] st)
              | Inr u \<Rightarrow>
                  emit [OpenFile (TFile p b e), Notice (''Opened existing note: '' @ title)] st)
         | _ \<Rightarrow>
             (case ensureFolderExists h folderPath st of
                (Inl err, st1) \<Rightarrow> failed err st1
              | (Inr u, st1) \<Rightarrow>
                  (case getNoteContent_p0 h s st1 of
                     (Inl err, st2) \<Rightarrow> failed err st2
                   | (Inr content, st2) \<Rightarrow>
                       (case create h (vault st2) filePath content of
                          Inl err \<Rightarrow> failed err (emit [Create filePath content] st2)
                        | Inr (file, v') \<Rightarrow>
                            (case openFile h v' file of
                               Inl err \<Rightarrow>
                                 failed err (emit [Create filePath content, OpenFile file]
                                               (st2\<lparr>vault := v'\<rparr>))
                             | Inr u \<Rightarrow>
                                 emit [Create filePath content, OpenFile file,
                                       Notice (''Created note: '' @ title)]
                                   (st2\<lparr>vault := v'\<rparr>))))))"

definition createQuickNote_p0 ::
  "'v host \<Rightarrow> settings \<Rightarrow> jsDate \<Rightarrow> string \<Rightarrow> 'v state \<Rightarrow> 'v state" where
  "createQuickNote_p0 h s now inputValue st =
     (let pastTitles = getPastNoteTitles_p0 h s (vault st)
      in submit (onSubmit_p0 h s now) inputValue st)"

text \<open>
  The modal of this file keeps its own dropdown: the list \<open>filteredSuggestions\<close>, the
  children of \<open>suggestionsContainer\<close> (\<open>items\<close>) and whether the container is displayed.
\<close>

record modal =
  pastTitles :: "string list"
  filteredSuggestions :: "string list"
  selectedIndex :: int
  items :: "string list"
  displayed :: bool

definition hideSuggestions :: "modal \<Rightarrow> modal" where
  "hideSuggestions m = m\<lparr>displayed := False, selectedIndex := - 1\<rparr>"

definition updateSuggestions :: "string \<Rightarrow> modal \<Rightarrow> modal" where
  \<comment> \<open>\<open>TitleInputModal.updateSuggestions\<close>, on the text in the input.\<close>
  "updateSuggestions titleInputValue m =
     (let inputValue = toLowerCase titleInputValue
      in if inputValue = [] then hideSuggestions m
         else (let m1 = m\<lparr>filteredSuggestions :=
                            filter (\<lambda>title. includes_str (toLowerCase title) inputValue)
                              (pastTitles m)\<rparr>
               in if length (filteredSuggestions m1) = 0 then hideSuggestions m1
                  else m1\<lparr>items := filteredSuggestions m1, selectedIndex := - 1,
                          displayed := True\<rparr>))"

section \<open>Notions used in the statements\<close>

text \<open>
  Lines as the \<open>m\<close> flag sees them: the pieces between line terminators.
\<close>

fun jsLines :: "string \<Rightarrow> string list" where
  "jsLines [] = [] # []"
| "jsLines (c # cs) =
     (if isLineTerminator c then [] # jsLines cs
      else (case jsLines cs of [] \<Rightarrow> [c] # [] | l # ls \<Rightarrow> (c # l) # ls))"

definition hasLineStarting :: "string \<Rightarrow> string \<Rightarrow> bool" where
  "hasLineStarting p s = list_ex (prefix p) (jsLines s)"

text \<open>
  The content is an opening line, \<open>fm\<close>, the first closing line after it, and \<open>body\<close>:
  no closing line starts inside \<open>fm\<close>.
\<close>

definition frontmatterSplit :: "string \<Rightarrow> string \<Rightarrow> string \<Rightarrow> bool" where
  "frontmatterSplit content fm body =
     (content = ''---\<newline>'' @ fm @ ''\<newline>---\<newline>'' @ body
      \<and> \<not> sublist ''\<newline>---\<newline>'' (fm @ ''\<newline>---''))"

definition carriesFrontmatter :: "string \<Rightarrow> bool" where
  "carriesFrontmatter content =
     (\<exists>fm rest. content = ''---\<newline>'' @ fm @ ''\<newline>---\<newline>'' @ rest
        \<and> hasLineStarting ''title:'' fm \<and> hasLineStarting ''date:'' fm)"

text \<open>
  The frontmatter block a content begins with, as the glossary has it: the lines between
  a first line \<open>---\<close> and the next line \<open>---\<close>.
\<close>

definition leadingFrontmatter :: "string \<Rightarrow> string list option" where
  "leadingFrontmatter content =
     (case jsLines content of
        [] \<Rightarrow> None
      | l # ls \<Rightarrow>
          if l = ''---'' \<and> ''---'' \<in> set ls
          then Some (takeWhile (\<lambda>x. x \<noteq> ''---'') ls) else None)"

text \<open>
  A text with no line feed in it, and a frontmatter whose first line is \<open>---\<close>.
\<close>

definition lineFeedFree :: "string \<Rightarrow> bool" where
  "lineFeedFree s = (CHR ''\<newline>'' \<notin> set s)"

definition dashLineFirst :: "string \<Rightarrow> bool" where
  "dashLineFirst fm = prefix ''---\<newline>'' (fm @ ''\<newline>---'')"

text \<open>
  The files of a tree at any depth, as (basename, extension), and the dated notes among
  them: the (date, title) of each \<open>.md\<close> file the pattern of main.ts matches.
\<close>

fun allFiles :: "abstract_file list \<Rightarrow> (string \<times> string) list" where
  "allFiles [] = []"
| "allFiles (TFile p b e # rest) = (b, e) # allFiles rest"
| "allFiles (TFolder p cs # rest) = allFiles cs @ allFiles rest"

definition datedNotes :: "abstract_file list \<Rightarrow> (string \<times> string) list" where
  "datedNotes cs =
     List.map_filter (\<lambda>(b, e). if e = ''md'' then datePattern b else None) (allFiles cs)"

definition filesUnderBase :: "'v host \<Rightarrow> settings \<Rightarrow> 'v \<Rightarrow> (string \<times> string) list" where
  "filesUnderBase h s v =
     (case getAbstractFileByPath h v (normalizePath h (baseFolder s)) of
        Some (TFolder p cs) \<Rightarrow> allFiles cs
      | _ \<Rightarrow> [])"

text \<open>
  What one \<open>.md\<close> file does to \<open>titleDates\<close> in the loop of main.ts, and the title one
  \<open>.md\<close> file gives in the loop of part\_000.
\<close>

definition keepMostRecent :: "(string \<times> string) list \<Rightarrow> string \<times> string \<Rightarrow> (string \<times> string) list" where
  "keepMostRecent titleDates note =
     (case note of (date, title) \<Rightarrow>
        (case map_of titleDates title of
           None \<Rightarrow> AList.update title date titleDates
         | Some existingDate \<Rightarrow>
             if existingDate = [] \<or> existingDate < date
             then AList.update title date titleDates else titleDates))"

definition strippedTitle :: "string \<Rightarrow> string option" where
  "strippedTitle fileName =
     (let titleMatch = replaceDatePrefix fileName
      in if titleMatch \<noteq> [] \<and> titleMatch \<noteq> fileName then Some titleMatch else None)"

definition strippedTitles :: "abstract_file list \<Rightarrow> string list" where
  "strippedTitles cs =
     List.map_filter (\<lambda>(b, e). if e = ''md'' then strippedTitle b else None) (allFiles cs)"

text \<open>
  A basename with no line terminator in it and no white space at its end.
\<close>

definition regularName :: "string \<Rightarrow> bool" where
  "regularName b = (\<not> list_ex isLineTerminator b \<and> (b = [] \<or> \<not> isSpace (last b)))"

text \<open>
  The calls a run adds to the trace, and the paths the callback computes.
\<close>

definition newCalls :: "'v state \<Rightarrow> 'v state \<Rightarrow> call list" where
  "newCalls st st' = drop (length (trace st)) (trace st')"

definition folderPathOf :: "'v host \<Rightarrow> settings \<Rightarrow> jsDate \<Rightarrow> string" where
  "folderPathOf h s now =
     normalizePath h (baseFolder s @ ''/'' @ intToString (getFullYear now) @ ''/''
                      @ padStart 2 CHR ''0'' (natToString (getMonth now + 1)))"

definition filePathOf :: "'v host \<Rightarrow> settings \<Rightarrow> jsDate \<Rightarrow> string \<Rightarrow> string" where
  "filePathOf h s now title =
     normalizePath h (folderPathOf h s now @ ''/'' @ formatDate now @ '' '' @ title @ ''.md'')"

text \<open>
  Whether the folder of a note is ready in the vault \<open>v1\<close>: it was there in \<open>v\<close>, and \<open>v1\<close>
  is \<open>v\<close>, or it was not and creating it gave \<open>v1\<close>.
\<close>

definition folderReady :: "'v host \<Rightarrow> 'v \<Rightarrow> string \<Rightarrow> 'v \<Rightarrow> bool" where
  "folderReady h v folderPath v1 =
     ((getAbstractFileByPath h v folderPath \<noteq> None \<and> v1 = v)
      \<or> (getAbstractFileByPath h v folderPath = None \<and> createFolder h v folderPath = Inr v1))"




text \<open>
  Letter case in Latin-1. The capital letters are A to Z (U+0041 to U+005A) and U+00C0 to
  U+00DE but for the multiplication sign U+00D7; the small form of a capital lies 32
  further on. Two code units are the same letter when they are equal or one is the small
  form of the other; a title contains a query up to case when the query, letter by
  letter, is at the start of one of the title's suffixes.
\<close>

definition isCapital :: "char \<Rightarrow> bool" where
  "isCapital c =
     ((CHR ''A'' \<le> c \<and> c \<le> CHR ''Z'') \<or> (CHR 0xC0 \<le> c \<and> c \<le> CHR 0xDE \<and> c \<noteq> CHR 0xD7))"

definition sameLetter :: "char \<Rightarrow> char \<Rightarrow> bool" where
  "sameLetter a b =
     (a = b \<or> (isCapital a \<and> (of_char b :: nat) = of_char a + 32)
            \<or> (isCapital b \<and> (of_char a :: nat) = of_char b + 32))"

definition containsIgnoringCase :: "string \<Rightarrow> string \<Rightarrow> bool" where
  "containsIgnoringCase t q =
     list_ex (\<lambda>s. list_all2 sameLetter (take (length q) s) q) (suffixes t)"

text \<open>
  What the dropdown of part\_000 shows.
\<close>

definition visibleSuggestions :: "modal \<Rightarrow> string list" where
  "visibleSuggestions m = (if displayed m then items m else [])"

section \<open>A host in memory for the worked examples\<close>

text \<open>
  A host that keeps the vault in memory, as a list of (path, entry, data), leaves paths as
  they are and compares strings by code units; and some vaults, settings and a date.
\<close>

type_synonym memVault = "(string \<times> abstract_file \<times> string) list"

definition codeUnitCompare :: "string \<Rightarrow> string \<Rightarrow> int" where
  "codeUnitCompare a b = (if a < b then - 1 else if b < a then 1 else 0)"

definition lastSegment :: "string \<Rightarrow> string" where
  "lastSegment p = rev (takeWhile (\<lambda>c. c \<noteq> CHR ''/'') (rev p))"

definition memHost :: "memVault host" where
  "memHost =
     \<lparr> normalizePath = (\<lambda>p. p),
       localeCompare = codeUnitCompare,
       getAbstractFileByPath = (\<lambda>v p. map_option fst (map_of v p)),
       createFolder = (\<lambda>v p. if map_of v p = None then Inr (v @ [(p, TFolder p [], [])])
                              else Inl ''Folder already exists.''),
       create = (\<lambda>v p c. if map_of v p = None
                          then (let n = lastSegment p;
                                    f = TFile p (rev (drop 1 (dropWhile (\<lambda>c. c \<noteq> CHR ''.'') (rev n))))
                                              (rev (takeWhile (\<lambda>c. c \<noteq> CHR ''.'') (rev n)))
                                in Inr (f, v @ [(p, f, c)]))
                          else Inl ''File already exists.''),
       read = (\<lambda>v f. case map_of v (path f) of Some (n, c) \<Rightarrow> Inr c
                                              | None \<Rightarrow> Inl ''File not found.''),
       openFile = (\<lambda>v f. if map_of v (path f) = None then Inl ''File not found.''
                             else Inr ()) \<rparr>"

definition start :: "'v \<Rightarrow> 'v state" where
  "start v = \<lparr> vault = v, trace = [] \<rparr>"

definition notesSettings :: settings where
  "notesSettings = \<lparr> baseFolder = ''Notes'', templatePath = [] \<rparr>"

definition templateSettings :: settings where
  "templateSettings = \<lparr> baseFolder = ''Notes'', templatePath = ''Templates/note.md'' \<rparr>"

definition march5 :: jsDate where
  "march5 = \<lparr> getFullYear = 2024, getMonth = 2, getDate = 5 \<rparr>"

definition sampleTree :: "abstract_file list" where
  "sampleTree =
     [TFile ''Notes/2024-01-05 Standup.md'' ''2024-01-05 Standup'' ''md'',
      TFolder ''Notes/2024'' [TFolder ''Notes/2024/03''
         [TFile ''Notes/2024/03/2024-03-01 Standup.md'' ''2024-03-01 Standup'' ''md'',
          TFile ''Notes/2024/03/2024-03-02 Ideas.md'' ''2024-03-02 Ideas'' ''md'',
          TFile ''Notes/2024/03/2024-03-02 Sketch.png'' ''2024-03-02 Sketch'' ''png'']],
      TFile ''Notes/2023-12-31 Standup.md'' ''2023-12-31 Standup'' ''md'']"

definition sampleVault :: memVault where
  "sampleVault = [(''Notes'', TFolder ''Notes'' sampleTree, [])]"

definition fileAtBase :: memVault where
  "fileAtBase = [(''Notes'', TFile ''Notes'' ''Notes'' [], ''text'')]"

definition blankTitleVault :: memVault where
  "blankTitleVault =
     [(''Notes'', TFolder ''Notes'' [TFile ''Notes/2024-01-01  .md'' ''2024-01-01  '' ''md''], [])]"

definition templateVault :: memVault where
  "templateVault =
     [(''Templates/note.md'', TFile ''Templates/note.md'' ''note'' ''md'',
       ''---\<newline>tags: x\<newline>---\<newline>Body'')]"

definition existingNoteVault :: memVault where
  "existingNoteVault =
     [(''Notes/2024/03/2024-03-05 Plan.md'',
       TFile ''Notes/2024/03/2024-03-05 Plan.md'' ''2024-03-05 Plan'' ''md'', ''old text'')]"

definition notesFolderVault :: memVault where
  "notesFolderVault = templateVault @ [(''Notes/2024/03'', TFolder ''Notes/2024/03'' [], [])]"

text \<open>
  The same host with a workspace that cannot open any file.
\<close>

definition lockedHost :: "memVault host" where
  "lockedHost = memHost\<lparr>openFile := (\<lambda>v f. Inl ''Cannot open file.'')\<rparr>"

definition closedModal :: modal where
  "closedModal = \<lparr> pastTitles = [''Daily log'', ''Ideas''], filteredSuggestions = [],
                    selectedIndex = - 1, items = [], displayed = False \<rparr>"

section \<open>Frontmatter: the pattern and the line test\<close>

lemma jsLines_nonempty: "jsLines s \<noteq> []"
  by (induction s) (auto split: list.splits)

lemma hd_jsLines: "hd (jsLines s) = takeWhile (\<lambda>c. \<not> isLineTerminator c) s"
  by (induction s) (auto split: list.splits simp: jsLines_nonempty)

lemma prefix_takeWhile_iff:
  "\<forall>c \<in> set p. P c \<Longrightarrow> prefix p (takeWhile P s) = prefix p s"
proof (induction p arbitrary: s)
  case Nil then show ?case by simp
next
  case (Cons a p)
  then show ?case by (cases s) auto
qed

lemma testAtLineStart_lines:
  assumes "\<forall>c \<in> set p. \<not> isLineTerminator c"
  shows "testAtLineStart p b s =
          ((b \<and> prefix p (hd (jsLines s))) \<or> list_ex (prefix p) (tl (jsLines s)))"
proof (induction s arbitrary: b)
  case Nil
  then show ?case by simp
next
  case (Cons c cs)
  have pc: "prefix p (hd (jsLines (c # cs))) = prefix p (c # cs)"
    unfolding hd_jsLines using prefix_takeWhile_iff[OF assms] by blast
  show ?case
  proof (cases "isLineTerminator c")
    case True
    then show ?thesis using Cons[of True] pc jsLines_nonempty[of cs]
      by (cases "jsLines cs") (auto)
  next
    case False
    then show ?thesis using Cons[of False] pc jsLines_nonempty[of cs]
      by (cases "jsLines cs") (auto)
  qed
qed

lemma testMultiline_lines:
  assumes "\<forall>c \<in> set p. \<not> isLineTerminator c"
  shows "testMultiline p s = hasLineStarting p s"
  unfolding testMultiline_def hasLineStarting_def testAtLineStart_lines[OF assms]
  using jsLines_nonempty[of s] by (cases "jsLines s") auto

lemma testMultiline_date: "testMultiline ''date:'' s = hasLineStarting ''date:'' s"
  by (rule testMultiline_lines) (simp add: isLineTerminator_def)

lemma testMultiline_title: "testMultiline ''title:'' s = hasLineStarting ''title:'' s"
  by (rule testMultiline_lines) (simp add: isLineTerminator_def)

lemma not_sublist_butlast: "d \<noteq> [] \<Longrightarrow> \<not> sublist d (butlast d)"
  using sublist_length_le[of d "butlast d"] by (cases d) auto

lemma prefix_butlast_ext: "prefix (x @ butlast d) (x @ d @ body)"
proof -
  have "prefix (butlast d) d" by (simp add: prefixeq_butlast)
  then show ?thesis by (metis prefix_def append.assoc same_prefix_prefix prefix_prefix)
qed

lemma early_occurrence:
  assumes "x \<noteq> []" "prefix d (x @ d @ body)"
  shows "sublist d (x @ butlast d)"
proof -
  have "length d \<le> length (x @ butlast d)" using assms(1) by (cases x) auto
  then have "prefix d (x @ butlast d)"
    using prefix_length_prefix[OF assms(2) prefix_butlast_ext[of x d body]] by simp
  then show ?thesis by simp
qed

lemma lazyUntil_Some:
  assumes "d \<noteq> []"
  shows "lazyUntil d acc rest = Some (fm, body) \<longleftrightarrow>
     (\<exists>x. fm = acc @ x \<and> rest = x @ d @ body \<and> \<not> sublist d (x @ butlast d))"
proof (induction rest arbitrary: acc)
  case Nil
  then show ?case using assms by (auto simp: not_sublist_butlast)
next
  case (Cons c cs)
  show ?case
  proof (cases "prefix d (c # cs)")
    case True
    then obtain r where r: "c # cs = d @ r" by (auto simp: prefix_def)
    have early: "\<And>x b. c # cs = x @ d @ b \<Longrightarrow> \<not> sublist d (x @ butlast d) \<Longrightarrow> x = []"
      using True early_occurrence by metis
    have "lazyUntil d acc (c # cs) = Some (acc, r)" using True r by simp
    moreover have "(\<exists>x. fm = acc @ x \<and> c # cs = x @ d @ body \<and> \<not> sublist d (x @ butlast d))
        \<longleftrightarrow> (fm = acc \<and> r = body)"
    proof
      assume "\<exists>x. fm = acc @ x \<and> c # cs = x @ d @ body \<and> \<not> sublist d (x @ butlast d)"
      then obtain x where x: "fm = acc @ x" "c # cs = x @ d @ body" "\<not> sublist d (x @ butlast d)"
        by blast
      then have "x = []" using early by blast
      with x r show "fm = acc \<and> r = body" by simp
    next
      assume "fm = acc \<and> r = body"
      then show "\<exists>x. fm = acc @ x \<and> c # cs = x @ d @ body \<and> \<not> sublist d (x @ butlast d)"
        using r not_sublist_butlast[OF assms] by (intro exI[of _ "[]"]) simp
    qed
    ultimately show ?thesis by auto
  next
    case False
    have step: "lazyUntil d acc (c # cs) = lazyUntil d (acc @ [c]) cs"
      using False by simp
    have "(\<exists>x. fm = acc @ x \<and> c # cs = x @ d @ body \<and> \<not> sublist d (x @ butlast d))
        \<longleftrightarrow> (\<exists>x'. fm = (acc @ [c]) @ x' \<and> cs = x' @ d @ body \<and> \<not> sublist d (x' @ butlast d))"
      (is "?L \<longleftrightarrow> ?R")
    proof
      assume ?L
      then obtain x where x: "fm = acc @ x" "c # cs = x @ d @ body" "\<not> sublist d (x @ butlast d)"
        by blast
      from False x(2) have "x \<noteq> []" by auto
      then obtain x' where x': "x = c # x'" using x(2) by (cases x) auto
      with x have "\<not> sublist d (x' @ butlast d)" by (auto simp: sublist_Cons_right)
      with x x' show ?R by auto
    next
      assume ?R
      then obtain x' where x': "fm = (acc @ [c]) @ x'" "cs = x' @ d @ body" "\<not> sublist d (x' @ butlast d)"
        by blast
      have "\<not> prefix d (c # x' @ butlast d)"
      proof
        assume "prefix d (c # x' @ butlast d)"
        moreover have "prefix ((c # x') @ butlast d) ((c # x') @ d @ body)" by (rule prefix_butlast_ext)
        ultimately have "prefix d (c # cs)" using x'(2) by (metis append_Cons prefix_order.trans)
        with False show False by simp
      qed
      with x' have "\<not> sublist d ((c # x') @ butlast d)" by (auto simp: sublist_Cons_right)
      with x' show ?L by (intro exI[of _ "c # x'"]) auto
    qed
    with step Cons[of "acc @ [c]"] show ?thesis by simp
  qed
qed

lemma lazyUntil_None:
  "lazyUntil d acc rest = None \<longleftrightarrow> \<not> sublist d rest"
proof (induction rest arbitrary: acc)
  case Nil
  then show ?case by (cases d) auto
next
  case (Cons c cs)
  then show ?case by (auto simp: sublist_Cons_right)
qed


lemma matchFrontmatter_Some:
  "matchFrontmatter content = Some (fm, body) \<longleftrightarrow> frontmatterSplit content fm body"
proof (cases "prefix ''---\<newline>'' content")
  case True
  then obtain r where r: "content = ''---\<newline>'' @ r" by (auto simp: prefix_def)
  show ?thesis
    unfolding matchFrontmatter_def frontmatterSplit_def r
    using lazyUntil_Some[of "''\<newline>---\<newline>''" "[]" r fm body] by auto
next
  case False
  then show ?thesis
    unfolding matchFrontmatter_def frontmatterSplit_def by (auto simp: prefix_def)
qed

lemma matchFrontmatter_None:
  "matchFrontmatter content = None \<longleftrightarrow>
     \<not> (\<exists>fm body. content = ''---\<newline>'' @ fm @ ''\<newline>---\<newline>'' @ body)"
proof (cases "prefix ''---\<newline>'' content")
  case True
  then obtain r where r: "content = ''---\<newline>'' @ r" by (auto simp: prefix_def)
  have "sublist ''\<newline>---\<newline>'' r \<longleftrightarrow> (\<exists>fm body. r = fm @ ''\<newline>---\<newline>'' @ body)"
    by (simp add: sublist_def)
  then show ?thesis
    unfolding matchFrontmatter_def r using lazyUntil_None[of "''\<newline>---\<newline>''" "[]" r] by auto
next
  case False
  then show ?thesis
    unfolding matchFrontmatter_def by (auto simp: prefix_def)
qed

lemma hasFrontmatter_of_open:
  "prefix ''---\<newline>'' content \<Longrightarrow> startsWith (trimStart content) ''---''"
  by (auto simp: prefix_def startsWith_def trimStart_def isSpace_def)

lemma addFrontmatter_match:
  assumes "frontmatterSplit content fm body"
  shows "addFrontmatter content title date =
           ''---\<newline>''
           @ (if hasLineStarting ''title:'' fm then [] else ''title: '' @ title @ ''\<newline>'')
           @ (if hasLineStarting ''date:'' fm then [] else ''date: '' @ date @ ''\<newline>'')
           @ fm @ ''\<newline>---\<newline>'' @ body"
proof -
  have m: "matchFrontmatter content = Some (fm, body)"
    using assms by (simp add: matchFrontmatter_Some)
  have "prefix ''---\<newline>'' content" using assms by (simp add: frontmatterSplit_def)
  then have h: "startsWith (trimStart content) ''---''" by (rule hasFrontmatter_of_open)
  show ?thesis
    unfolding addFrontmatter_def Let_def
    by (simp only: h m if_True option.case prod.case testMultiline_date testMultiline_title)
       simp
qed

lemma addFrontmatter_nomatch:
  assumes "\<not> (\<exists>fm body. content = ''---\<newline>'' @ fm @ ''\<newline>---\<newline>'' @ body)"
  shows "addFrontmatter content title date =
           ''---\<newline>title: '' @ title @ ''\<newline>date: '' @ date
             @ ''\<newline>---\<newline>\<newline>'' @ content"
proof -
  have m: "matchFrontmatter content = None"
    using assms by (simp only: matchFrontmatter_None not_False_eq_True)
  show ?thesis
    unfolding addFrontmatter_def Let_def by (simp only: m option.case if_cancel)
qed

lemma jsLines_append:
  "isLineTerminator c \<Longrightarrow> jsLines (a @ c # s) = jsLines a @ jsLines s"
  by (induction a) (auto split: list.splits simp: jsLines_nonempty)

lemma hasLineStarting_append:
  "isLineTerminator c \<Longrightarrow>
     hasLineStarting p (a @ c # s) = (hasLineStarting p a \<or> hasLineStarting p s)"
  by (simp add: hasLineStarting_def jsLines_append)

lemma hasLineStarting_prefix:
  assumes "\<forall>c \<in> set p. \<not> isLineTerminator c"
  shows "hasLineStarting p (p @ x)"
proof -
  have "prefix p (hd (jsLines (p @ x)))"
    unfolding hd_jsLines using prefix_takeWhile_iff[OF assms] by simp
  then show ?thesis
    unfolding hasLineStarting_def using jsLines_nonempty[of "p @ x"]
    by (cases "jsLines (p @ x)") auto
qed

lemma hasLine_title: "hasLineStarting ''title:'' (''title: '' @ x)"
  using hasLineStarting_prefix[of "''title:''" "CHR '' '' # x"] by (simp add: isLineTerminator_def)

lemma hasLine_date: "hasLineStarting ''date:'' (''date: '' @ x)"
  using hasLineStarting_prefix[of "''date:''" "CHR '' '' # x"] by (simp add: isLineTerminator_def)

lemma hasLine_after:
  "hasLineStarting p s \<Longrightarrow> hasLineStarting p (a @ CHR ''\<newline>'' # s)"
  by (simp add: hasLineStarting_append isLineTerminator_def)

lemma addFrontmatter_block:
  "\<exists>fm rest. addFrontmatter content title date = ''---\<newline>'' @ fm @ ''\<newline>---\<newline>'' @ rest
      \<and> hasLineStarting ''title:'' fm \<and> hasLineStarting ''date:'' fm"
proof (cases "\<exists>fm body. frontmatterSplit content fm body")
  case True
  then obtain fm body where sp: "frontmatterSplit content fm body" by blast
  let ?fm = "(if hasLineStarting ''title:'' fm then [] else ''title: '' @ title @ ''\<newline>'')
        @ (if hasLineStarting ''date:'' fm then [] else ''date: '' @ date @ ''\<newline>'') @ fm"
  have "addFrontmatter content title date = ''---\<newline>'' @ ?fm @ ''\<newline>---\<newline>'' @ body"
    using addFrontmatter_match[OF sp] by simp
  moreover have "hasLineStarting ''title:'' ?fm"
    using hasLine_title[of "title @ ''\<newline>'' @ x" for x]
      hasLine_after[of "''title:''" fm "''date: '' @ date"]
    by (auto)
  moreover have "hasLineStarting ''date:'' ?fm"
    using hasLine_date[of "date @ ''\<newline>'' @ x" for x]
      hasLine_after[of "''date:''" _ "''title: '' @ title"]
    by (auto)
  ultimately show ?thesis by blast
next
  case False
  then have "\<not> (\<exists>fm body. content = ''---\<newline>'' @ fm @ ''\<newline>---\<newline>'' @ body)"
    using matchFrontmatter_None[of content] matchFrontmatter_Some[of content]
    by (cases "matchFrontmatter content") auto
  from addFrontmatter_nomatch[OF this]
  have "addFrontmatter content title date =
          ''---\<newline>'' @ (''title: '' @ title @ ''\<newline>date: '' @ date) @ ''\<newline>---\<newline>''
            @ (''\<newline>'' @ content)"
    by simp
  moreover have "hasLineStarting ''title:'' (''title: '' @ title @ ''\<newline>date: '' @ date)"
    by (rule hasLine_title)
  moreover have "hasLineStarting ''date:'' (''title: '' @ title @ ''\<newline>date: '' @ date)"
    using hasLine_after[OF hasLine_date[of date], of "''title: '' @ title"] by simp
  ultimately show ?thesis by blast
qed

lemma no_close_after_line:
  assumes "lineFeedFree l" "\<not> sublist ''\<newline>---\<newline>'' s" "\<not> prefix ''---\<newline>'' s"
  shows "\<not> sublist ''\<newline>---\<newline>'' (l @ ''\<newline>'' @ s)"
  using assms(1)
proof (induction l)
  case Nil
  then show ?case using assms(2,3) by (simp add: sublist_Cons_right)
next
  case (Cons c l)
  then show ?case by (auto simp: sublist_Cons_right lineFeedFree_def)
qed

lemma split_after_line:
  assumes "lineFeedFree l" "l \<noteq> []" "hd l \<noteq> CHR ''-''"
    "\<not> sublist ''\<newline>---\<newline>'' (fm @ ''\<newline>---'')" "\<not> prefix ''---\<newline>'' (fm @ ''\<newline>---'')"
  shows "\<not> sublist ''\<newline>---\<newline>'' ((l @ ''\<newline>'' @ fm) @ ''\<newline>---'')"
    and "\<not> prefix ''---\<newline>'' ((l @ ''\<newline>'' @ fm) @ ''\<newline>---'')"
proof -
  show "\<not> sublist ''\<newline>---\<newline>'' ((l @ ''\<newline>'' @ fm) @ ''\<newline>---'')"
    using no_close_after_line[OF assms(1,4,5)] by simp
  show "\<not> prefix ''---\<newline>'' ((l @ ''\<newline>'' @ fm) @ ''\<newline>---'')"
    using assms(2,3) by (cases l) auto
qed

lemma lineFeedFree_field:
  "lineFeedFree x \<Longrightarrow> lineFeedFree (''title: '' @ x)"
  "lineFeedFree x \<Longrightarrow> lineFeedFree (''date: '' @ x)"
  by (simp_all add: lineFeedFree_def)

lemma frontmatterSplit_add_line:
  assumes "lineFeedFree l" "l \<noteq> []" "hd l \<noteq> CHR ''-''"
    and "frontmatterSplit (''---\<newline>'' @ fm @ ''\<newline>---\<newline>'' @ body) fm body"
    and "\<not> prefix ''---\<newline>'' (fm @ ''\<newline>---'')"
  shows "frontmatterSplit (''---\<newline>'' @ (l @ ''\<newline>'' @ fm) @ ''\<newline>---\<newline>'' @ body)
           (l @ ''\<newline>'' @ fm) body"
    and "\<not> prefix ''---\<newline>'' ((l @ ''\<newline>'' @ fm) @ ''\<newline>---'')"
  using split_after_line[OF assms(1,2,3) _ assms(5)] assms(4)
  by (simp_all add: frontmatterSplit_def)

lemma addFrontmatter_first_block:
  assumes t: "lineFeedFree title" and d: "lineFeedFree date"
    and nd: "\<forall>fm body. frontmatterSplit content fm body \<longrightarrow> \<not> dashLineFirst fm"
  shows "\<exists>fm rest. frontmatterSplit (addFrontmatter content title date) fm rest
           \<and> hasLineStarting ''title:'' fm \<and> hasLineStarting ''date:'' fm
           \<and> (\<forall>fm0 body. frontmatterSplit content fm0 body \<longrightarrow> rest = body)"
proof (cases "\<exists>fm body. frontmatterSplit content fm body")
  case True
  then obtain fm body where sp: "frontmatterSplit content fm body" by blast
  then have c: "content = ''---\<newline>'' @ fm @ ''\<newline>---\<newline>'' @ body"
    by (simp add: frontmatterSplit_def)
  from sp nd have np: "\<not> prefix ''---\<newline>'' (fm @ ''\<newline>---'')"
    by (auto simp: dashLineFirst_def)
  have uniq: "rest = body" if "frontmatterSplit content fm0 rest" for fm0 rest
    using that sp by (metis matchFrontmatter_Some option.inject prod.inject)
  let ?dl = "''date: '' @ date"
  let ?tl = "''title: '' @ title"
  let ?fm1 = "if hasLineStarting ''date:'' fm then fm else ?dl @ ''\<newline>'' @ fm"
  let ?fm2 = "if hasLineStarting ''title:'' fm then ?fm1 else ?tl @ ''\<newline>'' @ ?fm1"
  have r: "addFrontmatter content title date = ''---\<newline>'' @ ?fm2 @ ''\<newline>---\<newline>'' @ body"
    using addFrontmatter_match[OF sp] by simp
  have s0: "frontmatterSplit (''---\<newline>'' @ fm @ ''\<newline>---\<newline>'' @ body) fm body"
    using sp c by simp
  have s1: "frontmatterSplit (''---\<newline>'' @ ?fm1 @ ''\<newline>---\<newline>'' @ body) ?fm1 body
            \<and> \<not> prefix ''---\<newline>'' (?fm1 @ ''\<newline>---'')"
    using frontmatterSplit_add_line[OF lineFeedFree_field(2)[OF d] _ _ s0 np] s0 np
    by simp
  have s2: "frontmatterSplit (''---\<newline>'' @ ?fm2 @ ''\<newline>---\<newline>'' @ body) ?fm2 body"
    using frontmatterSplit_add_line(1)[OF lineFeedFree_field(1)[OF t] _ _ s1[THEN conjunct1] s1[THEN conjunct2]] s1
    by simp
  have ht: "hasLineStarting ''title:'' ?fm2"
    using hasLine_title[of "title @ ''\<newline>'' @ x" for x]
      hasLine_after[of "''title:''" fm "''date: '' @ date"]
    by auto
  have hd: "hasLineStarting ''date:'' ?fm2"
    using hasLine_date[of "date @ ''\<newline>'' @ x" for x]
      hasLine_after[of "''date:''" _ "''title: '' @ title"]
    by auto
  from s2 ht hd uniq show ?thesis unfolding r by blast
next
  case False
  then have nm: "\<not> (\<exists>fm body. content = ''---\<newline>'' @ fm @ ''\<newline>---\<newline>'' @ body)"
    using matchFrontmatter_None[of content] matchFrontmatter_Some[of content]
    by (cases "matchFrontmatter content") auto
  let ?fm = "''title: '' @ title @ ''\<newline>date: '' @ date"
  have r: "addFrontmatter content title date =
          ''---\<newline>'' @ ?fm @ ''\<newline>---\<newline>'' @ (''\<newline>'' @ content)"
    using addFrontmatter_nomatch[OF nm] by simp
  have s1: "\<not> sublist ''\<newline>---\<newline>'' ((''date: '' @ date) @ ''\<newline>'' @ ''---'')"
    by (rule no_close_after_line[OF lineFeedFree_field(2)[OF d]])
       (simp_all add: sublist_Cons_right)
  have "\<not> sublist ''\<newline>---\<newline>'' ((''title: '' @ title) @ ''\<newline>'' @ ((''date: '' @ date) @ ''\<newline>'' @ ''---''))"
    by (rule no_close_after_line[OF lineFeedFree_field(1)[OF t] s1]) simp
  then have "\<not> sublist ''\<newline>---\<newline>'' (?fm @ ''\<newline>---'')"
    by simp
  then have sp: "frontmatterSplit (addFrontmatter content title date) ?fm (''\<newline>'' @ content)"
    unfolding r by (simp add: frontmatterSplit_def)
  moreover have "hasLineStarting ''title:'' ?fm" by (rule hasLine_title)
  moreover have "hasLineStarting ''date:'' ?fm"
    using hasLine_after[OF hasLine_date[of date], of "''title: '' @ title"] by simp
  ultimately show ?thesis using False by blast
qed

lemma jsLines_dashes: "jsLines ''---'' = [''---'']"
  by (simp add: isLineTerminator_def)

lemma jsLines_block:
  "jsLines (''---\<newline>'' @ fm @ ''\<newline>---\<newline>'' @ body)
     = ''---'' # jsLines fm @ ''---'' # jsLines body"
proof -
  have lf: "isLineTerminator CHR ''\<newline>''" by (simp add: isLineTerminator_def)
  have e: "''---\<newline>'' @ fm @ ''\<newline>---\<newline>'' @ body
      = ''---'' @ CHR ''\<newline>'' # (fm @ CHR ''\<newline>'' # (''---'' @ CHR ''\<newline>'' # body))"
    by simp
  show ?thesis
    unfolding e by (simp only: jsLines_append[OF lf] jsLines_dashes) simp
qed

lemma leadingFrontmatter_block:
  assumes "''---'' \<notin> set (jsLines fm)"
  shows "leadingFrontmatter (''---\<newline>'' @ fm @ ''\<newline>---\<newline>'' @ body) = Some (jsLines fm)"
proof -
  have "takeWhile (\<lambda>x. x \<noteq> ''---'') (jsLines fm @ ''---'' # jsLines body) = jsLines fm"
    using assms by (auto simp: takeWhile_tail takeWhile_eq_all_conv)
  then show ?thesis
    unfolding leadingFrontmatter_def jsLines_block by simp
qed

lemma leadingFrontmatter_of_match:
  "content = ''---\<newline>'' @ fm @ ''\<newline>---\<newline>'' @ body \<Longrightarrow> leadingFrontmatter content \<noteq> None"
  unfolding leadingFrontmatter_def by (simp only: jsLines_block) simp

lemma first_line_dashes:
  assumes "prefix ''---\<newline>'' (fm @ ''\<newline>---'')"
  shows "takeWhile (\<lambda>c. \<not> isLineTerminator c) fm = ''---''"
proof -
  from assms obtain zs where z: "fm @ ''\<newline>---'' = ''---\<newline>'' @ zs" by (auto simp: prefix_def)
  show ?thesis
  proof (cases "length fm \<le> 3")
    case True
    from z have "take 3 (fm @ ''\<newline>---'') = ''---''" by simp
    moreover from z have "(fm @ ''\<newline>---'') ! 3 = CHR ''\<newline>''" by simp
    ultimately have "fm = ''---''" using True
      by (cases fm; cases "tl fm"; cases "tl (tl fm)"; cases "tl (tl (tl fm))") auto
    then show ?thesis by (simp add: isLineTerminator_def)
  next
    case False
    then have "take 4 fm = take 4 (fm @ ''\<newline>---'')" by simp
    also have "\<dots> = ''---\<newline>''" using z by simp
    finally have "fm = ''---\<newline>'' @ drop 4 fm" by (metis append_take_drop_id)
    then obtain r where "fm = ''---\<newline>'' @ r" ..
    then show ?thesis by (simp add: isLineTerminator_def)
  qed
qed

lemma close_starts_dash_line:
  "sublist ''\<newline>---\<newline>'' (fm @ ''\<newline>---'') \<Longrightarrow> ''---'' \<in> set (tl (jsLines fm))"
proof (induction fm)
  case Nil
  then show ?case by (simp add: sublist_Cons_right)
next
  case (Cons c fm)
  from Cons.prems have "prefix ''\<newline>---\<newline>'' (c # fm @ ''\<newline>---'') \<or> sublist ''\<newline>---\<newline>'' (fm @ ''\<newline>---'')"
    by (simp add: sublist_Cons_right)
  then show ?case
  proof
    assume p: "prefix ''\<newline>---\<newline>'' (c # fm @ ''\<newline>---'')"
    then have c: "c = CHR ''\<newline>''" and p': "prefix ''---\<newline>'' (fm @ ''\<newline>---'')" by auto
    from first_line_dashes[OF p'] have "hd (jsLines fm) = ''---''" by (simp add: hd_jsLines)
    then have "''---'' \<in> set (jsLines fm)"
      using jsLines_nonempty[of fm] by (cases "jsLines fm") auto
    then show ?thesis by (simp add: c isLineTerminator_def)
  next
    assume "sublist ''\<newline>---\<newline>'' (fm @ ''\<newline>---'')"
    from Cons.IH[OF this] show ?thesis
      using jsLines_nonempty[of fm] by (cases "jsLines fm") (auto)
  qed
qed

lemma frontmatterSplit_of_lines:
  assumes "content = ''---\<newline>'' @ fm @ ''\<newline>---\<newline>'' @ body" "''---'' \<notin> set (jsLines fm)"
  shows "frontmatterSplit content fm body" "\<not> dashLineFirst fm"
proof -
  have "''---'' \<notin> set (tl (jsLines fm))"
    using assms(2) jsLines_nonempty[of fm] by (cases "jsLines fm") auto
  then have "\<not> sublist ''\<newline>---\<newline>'' (fm @ ''\<newline>---'')"
    using close_starts_dash_line by blast
  then show "frontmatterSplit content fm body" using assms(1) by (simp add: frontmatterSplit_def)
  show "\<not> dashLineFirst fm"
  proof
    assume "dashLineFirst fm"
    then have "hd (jsLines fm) = ''---''"
      using first_line_dashes by (simp add: dashLineFirst_def hd_jsLines)
    then show False using assms(2) jsLines_nonempty[of fm] by (cases "jsLines fm") auto
  qed
qed

section \<open>Frontmatter: the claims\<close>

lemmas frontmatter_defs = addFrontmatter_def startsWith_def trimStart_def isSpace_def
  matchFrontmatter_def testMultiline_def isLineTerminator_def

text \<open>
  Claim C2, amended. When the content is an opening \<open>---\<close> line, a frontmatter \<open>fm\<close> none of
  whose lines is \<open>---\<close>, a closing \<open>---\<close> line with a line feed after it, and a body, then
  \<open>fm\<close> is the frontmatter block the content begins with, and \<open>addFrontmatter\<close> puts a
  \<open>title:\<close> line in front of \<open>fm\<close> exactly when no line of \<open>fm\<close> starts with \<open>title:\<close>, and a
  \<open>date:\<close> line exactly when no line of \<open>fm\<close> starts with \<open>date:\<close>; the rest stays as it is.
  When the content begins with no frontmatter block, a new block with both fields goes in
  front of it.
\<close>

theorem addFrontmatter_adds_missing_fields:
  "(content = ''---\<newline>'' @ fm @ ''\<newline>---\<newline>'' @ body \<and> ''---'' \<notin> set (jsLines fm) \<longrightarrow>
      leadingFrontmatter content = Some (jsLines fm)
      \<and> addFrontmatter content title date =
          ''---\<newline>''
          @ (if hasLineStarting ''title:'' fm then [] else ''title: '' @ title @ ''\<newline>'')
          @ (if hasLineStarting ''date:'' fm then [] else ''date: '' @ date @ ''\<newline>'')
          @ fm @ ''\<newline>---\<newline>'' @ body)
   \<and> (leadingFrontmatter content = None \<longrightarrow>
      addFrontmatter content title date =
        ''---\<newline>title: '' @ title @ ''\<newline>date: '' @ date
          @ ''\<newline>---\<newline>\<newline>'' @ content)"
proof (intro conjI impI)
  assume a: "content = ''---\<newline>'' @ fm @ ''\<newline>---\<newline>'' @ body \<and> ''---'' \<notin> set (jsLines fm)"
  then show "leadingFrontmatter content = Some (jsLines fm)"
    using leadingFrontmatter_block[of fm body] by simp
  from a have "frontmatterSplit content fm body"
    using frontmatterSplit_of_lines(1)[of content fm body] by blast
  then show "addFrontmatter content title date =
          ''---\<newline>''
          @ (if hasLineStarting ''title:'' fm then [] else ''title: '' @ title @ ''\<newline>'')
          @ (if hasLineStarting ''date:'' fm then [] else ''date: '' @ date @ ''\<newline>'')
          @ fm @ ''\<newline>---\<newline>'' @ body"
    by (rule addFrontmatter_match)
next
  assume "leadingFrontmatter content = None"
  then have "\<not> (\<exists>fm body. content = ''---\<newline>'' @ fm @ ''\<newline>---\<newline>'' @ body)"
    using leadingFrontmatter_of_match by blast
  then show "addFrontmatter content title date =
        ''---\<newline>title: '' @ title @ ''\<newline>date: '' @ date
          @ ''\<newline>---\<newline>\<newline>'' @ content"
    by (rule addFrontmatter_nomatch)
qed

theorem addFrontmatter_adds_missing_fields_witness:
  "''---'' \<notin> set (jsLines ''tags: a\<newline>date: 2020-02-02'')
   \<and> leadingFrontmatter ''---\<newline>tags: a\<newline>date: 2020-02-02\<newline>---\<newline>Body''
       = Some [''tags: a'', ''date: 2020-02-02'']
   \<and> addFrontmatter ''---\<newline>tags: a\<newline>date: 2020-02-02\<newline>---\<newline>Body'' ''Plan'' ''2024-03-01''
       = ''---\<newline>title: Plan\<newline>tags: a\<newline>date: 2020-02-02\<newline>---\<newline>Body''
   \<and> leadingFrontmatter ''# Heading\<newline>text'' = None
   \<and> addFrontmatter ''# Heading\<newline>text'' ''Plan'' ''2024-03-01''
       = ''---\<newline>title: Plan\<newline>date: 2024-03-01\<newline>---\<newline>\<newline># Heading\<newline>text''"
proof -
  have l: "jsLines ''tags: a\<newline>date: 2020-02-02'' = [''tags: a'', ''date: 2020-02-02'']"
    by (simp add: isLineTerminator_def)
  have a: "''---'' \<notin> set (jsLines ''tags: a\<newline>date: 2020-02-02'')"
    unfolding l by simp
  have b: "leadingFrontmatter ''# Heading\<newline>text'' = None"
    by (simp add: leadingFrontmatter_def isLineTerminator_def)
  have c: "hasLineStarting ''date:'' ''tags: a\<newline>date: 2020-02-02''"
          "\<not> hasLineStarting ''title:'' ''tags: a\<newline>date: 2020-02-02''"
    unfolding hasLineStarting_def l by simp_all
  note w1 = addFrontmatter_adds_missing_fields[of
        "''---\<newline>tags: a\<newline>date: 2020-02-02\<newline>---\<newline>Body''"
        "''tags: a\<newline>date: 2020-02-02''" "''Body''" "''Plan''" "''2024-03-01''"]
  note w2 = addFrontmatter_adds_missing_fields[of "''# Heading\<newline>text''" _ _ "''Plan''" "''2024-03-01''"]
  from w1 a c have d: "leadingFrontmatter ''---\<newline>tags: a\<newline>date: 2020-02-02\<newline>---\<newline>Body''
       = Some [''tags: a'', ''date: 2020-02-02'']"
    "addFrontmatter ''---\<newline>tags: a\<newline>date: 2020-02-02\<newline>---\<newline>Body'' ''Plan'' ''2024-03-01''
       = ''---\<newline>title: Plan\<newline>tags: a\<newline>date: 2020-02-02\<newline>---\<newline>Body''"
    unfolding l by simp_all
  from w2 b have e: "addFrontmatter ''# Heading\<newline>text'' ''Plan'' ''2024-03-01''
       = ''---\<newline>title: Plan\<newline>date: 2024-03-01\<newline>---\<newline>\<newline># Heading\<newline>text''"
    by simp
  from a b d e show ?thesis by blast
qed

text \<open>
  A frontmatter block whose closing \<open>---\<close> line ends the content, with no line feed after
  it, is not matched by the pattern: the content is treated as having no frontmatter, and
  a second \<open>title:\<close> and a second \<open>date:\<close> line are added in a new block although the block
  the content begins with has both.
\<close>

theorem addFrontmatter_block_closed_at_end:
  "leadingFrontmatter ''---\<newline>title: a\<newline>date: b\<newline>---'' = Some [''title: a'', ''date: b'']
   \<and> addFrontmatter ''---\<newline>title: a\<newline>date: b\<newline>---'' ''T'' ''D''
       = ''---\<newline>title: T\<newline>date: D\<newline>---\<newline>\<newline>---\<newline>title: a\<newline>date: b\<newline>---''"
  by (simp add: leadingFrontmatter_def frontmatter_defs)

text \<open>
  Claim C6, amended. Whatever the content, the title and the date, the result of
  \<open>addFrontmatter\<close> is an opening \<open>---\<close> line, a text with a line starting with \<open>title:\<close>
  and a line starting with \<open>date:\<close>, a closing \<open>---\<close> line, and a rest. When the title
  and the date have no line feed in them and the frontmatter matched in the content does
  not begin with a \<open>---\<close> line, that closing line is the first one after the opening
  line, so that the frontmatter block the result begins with holds both lines: the
  pattern of \<open>addFrontmatter\<close> itself finds this block in the result.
\<close>

theorem addFrontmatter_result_has_both_fields:
  "(\<exists>fm rest. addFrontmatter content title date = ''---\<newline>'' @ fm @ ''\<newline>---\<newline>'' @ rest
      \<and> hasLineStarting ''title:'' fm \<and> hasLineStarting ''date:'' fm)
   \<and> (lineFeedFree title \<and> lineFeedFree date
        \<and> (\<forall>fm body. frontmatterSplit content fm body \<longrightarrow> \<not> dashLineFirst fm)
      \<longrightarrow> (\<exists>fm rest. matchFrontmatter (addFrontmatter content title date) = Some (fm, rest)
             \<and> hasLineStarting ''title:'' fm \<and> hasLineStarting ''date:'' fm))"
proof (intro conjI impI)
  show "\<exists>fm rest. addFrontmatter content title date = ''---\<newline>'' @ fm @ ''\<newline>---\<newline>'' @ rest
      \<and> hasLineStarting ''title:'' fm \<and> hasLineStarting ''date:'' fm"
    by (rule addFrontmatter_block)
next
  assume "lineFeedFree title \<and> lineFeedFree date
        \<and> (\<forall>fm body. frontmatterSplit content fm body \<longrightarrow> \<not> dashLineFirst fm)"
  then obtain fm rest where "frontmatterSplit (addFrontmatter content title date) fm rest"
    "hasLineStarting ''title:'' fm" "hasLineStarting ''date:'' fm"
    using addFrontmatter_first_block[of title date content] by blast
  then show "\<exists>fm rest. matchFrontmatter (addFrontmatter content title date) = Some (fm, rest)
             \<and> hasLineStarting ''title:'' fm \<and> hasLineStarting ''date:'' fm"
    unfolding matchFrontmatter_Some by blast
qed

theorem addFrontmatter_result_has_both_fields_witness:
  "addFrontmatter ''---\<newline>tags: a\<newline>---\<newline>Body'' ''Plan'' ''2024-03-01''
     = ''---\<newline>title: Plan\<newline>date: 2024-03-01\<newline>tags: a\<newline>---\<newline>Body''
   \<and> lineFeedFree ''Plan'' \<and> lineFeedFree ''2024-03-01'' \<and> \<not> dashLineFirst ''tags: a''
   \<and> (\<exists>fm rest. matchFrontmatter (addFrontmatter ''---\<newline>tags: a\<newline>---\<newline>Body'' ''Plan'' ''2024-03-01'')
                     = Some (fm, rest)
          \<and> hasLineStarting ''title:'' fm \<and> hasLineStarting ''date:'' fm)"
proof -
  have r: "addFrontmatter ''---\<newline>tags: a\<newline>---\<newline>Body'' ''Plan'' ''2024-03-01''
     = ''---\<newline>title: Plan\<newline>date: 2024-03-01\<newline>tags: a\<newline>---\<newline>Body''"
    by (simp add: frontmatter_defs)
  have l: "lineFeedFree ''Plan''" "lineFeedFree ''2024-03-01''" "\<not> dashLineFirst ''tags: a''"
    by (simp_all add: lineFeedFree_def dashLineFirst_def)
  have m: "matchFrontmatter ''---\<newline>tags: a\<newline>---\<newline>Body'' = Some (''tags: a'', ''Body'')"
    by (simp add: matchFrontmatter_def)
  have "\<forall>fm body. frontmatterSplit ''---\<newline>tags: a\<newline>---\<newline>Body'' fm body \<longrightarrow> \<not> dashLineFirst fm"
    unfolding matchFrontmatter_Some[symmetric] m using l(3) by simp
  with l addFrontmatter_result_has_both_fields[of "''---\<newline>tags: a\<newline>---\<newline>Body''" "''Plan''" "''2024-03-01''"]
  have "\<exists>fm rest. matchFrontmatter (addFrontmatter ''---\<newline>tags: a\<newline>---\<newline>Body'' ''Plan'' ''2024-03-01'')
                     = Some (fm, rest)
          \<and> hasLineStarting ''title:'' fm \<and> hasLineStarting ''date:'' fm"
    by blast
  with r l show ?thesis by blast
qed

text \<open>
  Without the condition the block can end early. For a content of two \<open>---\<close> lines, a
  \<open>date:\<close> line and a third \<open>---\<close> line, the pattern takes the second \<open>---\<close> line and the
  \<open>date:\<close> line as the frontmatter and adds only a title in front; the frontmatter block
  the result begins with is the title line alone, and the date is left below it.
\<close>

theorem addFrontmatter_block_can_end_early:
  "addFrontmatter ''---\<newline>---\<newline>date: x\<newline>---\<newline>body'' ''T'' ''D''
     = ''---\<newline>title: T\<newline>---\<newline>date: x\<newline>---\<newline>body''
   \<and> matchFrontmatter ''---\<newline>title: T\<newline>---\<newline>date: x\<newline>---\<newline>body''
     = Some (''title: T'', ''date: x\<newline>---\<newline>body'')
   \<and> \<not> hasLineStarting ''date:'' ''title: T''"
  by (simp add: frontmatter_defs hasLineStarting_def)

text \<open>
  Claim C7. When the content matches the frontmatter pattern with body \<open>body\<close>, the result
  of \<open>addFrontmatter\<close> ends with the closing \<open>---\<close> line and that same body; when it does
  not match, the whole content is a suffix of the result. When moreover the title and the
  date have no line feed in them and the matched frontmatter does not begin with a \<open>---\<close>
  line, the pattern finds that same body in the result.
\<close>

theorem addFrontmatter_keeps_body:
  "(frontmatterSplit content fm body \<longrightarrow>
      (\<exists>fm'. addFrontmatter content title date = ''---\<newline>'' @ fm' @ ''\<newline>---\<newline>'' @ body))
   \<and> (\<not> (\<exists>fm body. content = ''---\<newline>'' @ fm @ ''\<newline>---\<newline>'' @ body) \<longrightarrow>
      suffix content (addFrontmatter content title date))
   \<and> (frontmatterSplit content fm body \<and> \<not> dashLineFirst fm
        \<and> lineFeedFree title \<and> lineFeedFree date \<longrightarrow>
      (\<exists>fm'. matchFrontmatter (addFrontmatter content title date) = Some (fm', body)))"
proof (intro conjI impI)
  assume "frontmatterSplit content fm body"
  from addFrontmatter_match[OF this, of title date]
  show "\<exists>fm'. addFrontmatter content title date = ''---\<newline>'' @ fm' @ ''\<newline>---\<newline>'' @ body"
    by (intro exI[of _ "(if hasLineStarting ''title:'' fm then [] else ''title: '' @ title @ ''\<newline>'')
        @ (if hasLineStarting ''date:'' fm then [] else ''date: '' @ date @ ''\<newline>'') @ fm"]) simp
next
  assume "\<not> (\<exists>fm body. content = ''---\<newline>'' @ fm @ ''\<newline>---\<newline>'' @ body)"
  from addFrontmatter_nomatch[OF this, of title date]
  show "suffix content (addFrontmatter content title date)"
    by (simp add: suffix_def)
next
  assume a: "frontmatterSplit content fm body \<and> \<not> dashLineFirst fm
        \<and> lineFeedFree title \<and> lineFeedFree date"
  then have "\<forall>fm0 body0. frontmatterSplit content fm0 body0 \<longrightarrow> \<not> dashLineFirst fm0"
    by (metis matchFrontmatter_Some option.inject prod.inject)
  with a addFrontmatter_first_block[of title date content]
  obtain fm' rest where "frontmatterSplit (addFrontmatter content title date) fm' rest"
    "\<forall>fm0 body. frontmatterSplit content fm0 body \<longrightarrow> rest = body"
    by blast
  with a have "frontmatterSplit (addFrontmatter content title date) fm' body" by blast
  then show "\<exists>fm'. matchFrontmatter (addFrontmatter content title date) = Some (fm', body)"
    unfolding matchFrontmatter_Some by blast
qed

theorem addFrontmatter_keeps_body_witness:
  "frontmatterSplit ''---\<newline>tags: a\<newline>---\<newline>Body\<newline>---\<newline>more'' ''tags: a'' ''Body\<newline>---\<newline>more''
   \<and> \<not> dashLineFirst ''tags: a'' \<and> lineFeedFree ''Plan'' \<and> lineFeedFree ''2024-03-01''
   \<and> suffix ''\<newline>---\<newline>Body\<newline>---\<newline>more''
         (addFrontmatter ''---\<newline>tags: a\<newline>---\<newline>Body\<newline>---\<newline>more'' ''Plan'' ''2024-03-01'')
   \<and> (\<exists>fm'. matchFrontmatter
                 (addFrontmatter ''---\<newline>tags: a\<newline>---\<newline>Body\<newline>---\<newline>more'' ''Plan'' ''2024-03-01'')
               = Some (fm', ''Body\<newline>---\<newline>more''))
   \<and> suffix ''  ---\<newline>x\<newline>---\<newline>'' (addFrontmatter ''  ---\<newline>x\<newline>---\<newline>'' ''Plan'' ''2024-03-01'')"
proof -
  have a: "frontmatterSplit ''---\<newline>tags: a\<newline>---\<newline>Body\<newline>---\<newline>more'' ''tags: a'' ''Body\<newline>---\<newline>more''"
    by (simp add: frontmatterSplit_def sublist_Cons_right)
  have l: "\<not> dashLineFirst ''tags: a''" "lineFeedFree ''Plan''" "lineFeedFree ''2024-03-01''"
    by (simp_all add: lineFeedFree_def dashLineFirst_def)
  have b: "\<not> (\<exists>fm body. ''  ---\<newline>x\<newline>---\<newline>'' = ''---\<newline>'' @ fm @ ''\<newline>---\<newline>'' @ body)"
    by simp
  note w = addFrontmatter_keeps_body[of "''---\<newline>tags: a\<newline>---\<newline>Body\<newline>---\<newline>more''" "''tags: a''"
      "''Body\<newline>---\<newline>more''" "''Plan''" "''2024-03-01''"]
  from w a obtain fm' where
    "addFrontmatter ''---\<newline>tags: a\<newline>---\<newline>Body\<newline>---\<newline>more'' ''Plan'' ''2024-03-01''
      = ''---\<newline>'' @ fm' @ ''\<newline>---\<newline>'' @ ''Body\<newline>---\<newline>more''"
    by blast
  then have c: "suffix ''\<newline>---\<newline>Body\<newline>---\<newline>more''
         (addFrontmatter ''---\<newline>tags: a\<newline>---\<newline>Body\<newline>---\<newline>more'' ''Plan'' ''2024-03-01'')"
    by (simp add: suffix_def)
  from w a l have e: "\<exists>fm'. matchFrontmatter
                 (addFrontmatter ''---\<newline>tags: a\<newline>---\<newline>Body\<newline>---\<newline>more'' ''Plan'' ''2024-03-01'')
               = Some (fm', ''Body\<newline>---\<newline>more'')"
    by blast
  from addFrontmatter_keeps_body[of "''  ---\<newline>x\<newline>---\<newline>''" _ _ "''Plan''" "''2024-03-01''"] b
  have d: "suffix ''  ---\<newline>x\<newline>---\<newline>'' (addFrontmatter ''  ---\<newline>x\<newline>---\<newline>'' ''Plan'' ''2024-03-01'')"
    by blast
  from a l c d e show ?thesis by blast
qed

section \<open>Past titles: the walk, the map and the sort\<close>

lemma map_filter_append: "List.map_filter f (xs @ ys) = List.map_filter f xs @ List.map_filter f ys"
  by (simp add: List.map_filter_def)

lemma datedNotes_simps:
  "datedNotes [] = []"
  "datedNotes (TFile p b e # rest) =
     (if e = ''md'' then (case datePattern b of None \<Rightarrow> [] | Some n \<Rightarrow> [n]) else []) @ datedNotes rest"
  "datedNotes (TFolder p cs # rest) = datedNotes cs @ datedNotes rest"
  by (auto simp: datedNotes_def List.map_filter_def split: option.splits)

lemma extractTitles_foldl:
  "extractTitles cs m = foldl keepMostRecent m (datedNotes cs)"
proof (induction cs m rule: extractTitles.induct)
  case (1 m)
  then show ?case by (simp add: datedNotes_simps)
next
  case (2 p fileName ext rest m)
  then show ?case
    by (auto simp: datedNotes_simps keepMostRecent_def split: option.splits)
next
  case (3 p cs rest m)
  then show ?case by (simp add: datedNotes_simps)
qed

lemma keepMostRecent_keys:
  "fst ` set (keepMostRecent m (d, t)) = insert t (fst ` set m)"
  by (auto simp: keepMostRecent_def dom_update split: option.splits dest: map_of_SomeD
           intro: rev_image_eqI)

lemma keepMostRecent_distinct:
  "distinct (map fst m) \<Longrightarrow> distinct (map fst (keepMostRecent m n))"
  by (cases n) (auto simp: keepMostRecent_def distinct_update split: option.splits)

lemma foldl_keys:
  "fst ` set (foldl keepMostRecent m N) = fst ` set m \<union> snd ` set N"
proof (induction N arbitrary: m)
  case Nil then show ?case by simp
next
  case (Cons n N)
  obtain d t where n: "n = (d, t)" by (cases n)
  show ?case unfolding n using Cons[of "keepMostRecent m (d, t)"]
    by (simp add: keepMostRecent_keys)
qed

lemma foldl_distinct:
  "distinct (map fst m) \<Longrightarrow> distinct (map fst (foldl keepMostRecent m N))"
  by (induction N arbitrary: m) (auto simp: keepMostRecent_distinct)

lemma keepMostRecent_other:
  "t' \<noteq> t \<Longrightarrow> map_of (keepMostRecent m (d, t)) t' = map_of m t'"
  by (auto simp: keepMostRecent_def update_conv' split: option.splits)

lemma keepMostRecent_same:
  "map_of (keepMostRecent m (d, t)) t =
     Some (case map_of m t of None \<Rightarrow> d | Some ex \<Rightarrow> max ex d)"
  by (auto simp: keepMostRecent_def update_conv' max_def split: option.splits)

lemma foldl_latest:
  "map_of (foldl keepMostRecent m N) t = Some d \<Longrightarrow>
     (map_of m t = Some d \<or> (d, t) \<in> set N)
     \<and> (\<forall>ex. map_of m t = Some ex \<longrightarrow> ex \<le> d)
     \<and> (\<forall>d'. (d', t) \<in> set N \<longrightarrow> d' \<le> d)"
proof (induction N arbitrary: m)
  case Nil then show ?case by simp
next
  case (Cons n N)
  obtain d0 t0 where n: "n = (d0, t0)" by (cases n)
  from Cons.prems have "map_of (foldl keepMostRecent (keepMostRecent m (d0, t0)) N) t = Some d"
    by (simp add: n)
  from Cons.IH[OF this] have IH:
    "map_of (keepMostRecent m (d0, t0)) t = Some d \<or> (d, t) \<in> set N"
    "\<forall>ex. map_of (keepMostRecent m (d0, t0)) t = Some ex \<longrightarrow> ex \<le> d"
    "\<forall>d'. (d', t) \<in> set N \<longrightarrow> d' \<le> d" by blast+
  show ?case
  proof (cases "t = t0")
    case False
    with IH show ?thesis by (auto simp: n keepMostRecent_other)
  next
    case True
    with IH show ?thesis
      by (auto simp: n keepMostRecent_same max_def split: option.splits if_splits)
  qed
qed

lemma set_insertBy: "set (insertBy cmp x ys) = insert x (set ys)"
  by (induction ys) auto

lemma set_jsSort: "set (jsSort cmp xs) = set xs"
  by (induction xs) (auto simp: set_insertBy)

lemma distinct_map_insertBy:
  "distinct (map f (insertBy cmp x ys)) \<longleftrightarrow> f x \<notin> f ` set ys \<and> distinct (map f ys)"
  by (induction ys) (auto simp: set_insertBy)

lemma distinct_map_jsSort: "distinct (map f (jsSort cmp xs)) = distinct (map f xs)"
  by (induction xs) (auto simp: distinct_map_insertBy set_jsSort)

lemma backtrackSpaces_SomeD:
  "backtrackSpaces k rest = Some t \<Longrightarrow>
     \<exists>j. 0 < j \<and> j \<le> k \<and> t = drop j rest \<and> t \<noteq> [] \<and> list_all isDot t"
proof (induction k)
  case 0 then show ?case by simp
next
  case (Suc k)
  show ?case
  proof (cases "drop (Suc k) rest \<noteq> [] \<and> list_all isDot (drop (Suc k) rest)")
    case True
    with Suc.prems have "t = drop (Suc k) rest" by (simp add: Let_def)
    with True show ?thesis by (intro exI[of _ "Suc k"]) simp
  next
    case False
    with Suc.prems have "backtrackSpaces k rest = Some t" by (auto simp: Let_def)
    from Suc.IH[OF this] show ?thesis by (auto intro: le_SucI)
  qed
qed

lemma isDate_length: "isDate d \<Longrightarrow> length d = 10"
  by (simp add: isDate_def)

lemma datePattern_SomeD:
  assumes "datePattern b = Some (d, t)"
  shows "\<exists>ws. b = d @ ws @ t \<and> isDate d \<and> ws \<noteq> [] \<and> list_all isSpace ws
              \<and> t \<noteq> [] \<and> list_all isDot t"
proof -
  let ?rest = "drop 10 b"
  let ?w = "takeWhile isSpace ?rest"
  from assms have dt: "isDate (take 10 b)" "d = take 10 b"
    and bt: "backtrackSpaces (length ?w) ?rest = Some t"
    by (auto simp: datePattern_def Let_def split: if_splits)
  from backtrackSpaces_SomeD[OF bt] obtain j where
    j: "0 < j" "j \<le> length ?w" "t = drop j ?rest" "t \<noteq> []" "list_all isDot t" by blast
  let ?ws = "take j ?rest"
  have "?ws = take j ?w"
    using j(2) by (metis takeWhile_dropWhile_id append_eq_conv_conj take_append take_all
        diff_is_0_eq take_0 append_Nil2 take_take min.absorb1)
  then have sp: "list_all isSpace ?ws"
    by (metis list_all_iff set_takeWhileD in_set_takeD)
  have ne: "?ws \<noteq> []" using j(1,3,4) by auto
  have "?rest = ?ws @ t" unfolding j(3) by (rule append_take_drop_id[symmetric])
  moreover have "b = d @ ?rest" unfolding dt(2) by (rule append_take_drop_id[symmetric])
  ultimately have "b = d @ ?ws @ t" by (simp only:)
  with dt sp ne j show ?thesis by blast
qed

lemma dropWhile_nonempty:
  "xs \<noteq> [] \<Longrightarrow> \<not> P (last xs) \<Longrightarrow> dropWhile P xs \<noteq> []"
  by (metis dropWhile_eq_Nil_conv last_in_set)

lemma datePattern_regular:
  assumes "regularName b"
  shows "map_option snd (datePattern b) = strippedTitle b"
proof (cases "isDate (take 10 b) \<and> takeWhile isSpace (drop 10 b) \<noteq> []")
  case False
  then show ?thesis
    by (auto simp: datePattern_def strippedTitle_def replaceDatePrefix_def Let_def)
next
  case True
  let ?rest = "drop 10 b"
  let ?r = "dropWhile isSpace ?rest"
  from True have len: "10 \<le> length b" using isDate_length[of "take 10 b"] by simp
  from True have restne: "?rest \<noteq> []" by auto
  then have "last ?rest = last b" by simp
  moreover from restne have "b \<noteq> []" by auto
  ultimately have "\<not> isSpace (last ?rest)" using assms by (simp add: regularName_def)
  then have rne: "?r \<noteq> []" using restne by (rule dropWhile_nonempty[rotated])
  have "set ?r \<subseteq> set b" by (meson set_dropWhileD in_set_dropD subsetI)
  then have dots: "list_all isDot ?r"
    using assms by (auto simp: regularName_def isDot_def list_all_iff list_ex_iff)
  obtain k where k: "length (takeWhile isSpace ?rest) = Suc k"
    using True by (cases "takeWhile isSpace ?rest") auto
  have dr: "drop (Suc k) ?rest = ?r"
    using k dropWhile_eq_drop[of isSpace ?rest] by simp
  have bs: "backtrackSpaces (length (takeWhile isSpace ?rest)) ?rest = Some ?r"
    unfolding k using rne dots dr by (simp add: Let_def del: drop_drop)
  have "length ?r \<le> length ?rest" by (rule length_dropWhile_le)
  then have "?r \<noteq> b" using len restne by (metis length_drop diff_le_self le_antisym
        diff_diff_cancel zero_neq_numeral diff_is_0_eq' le_trans)
  then show ?thesis
    using True bs rne
    by (simp add: datePattern_def strippedTitle_def replaceDatePrefix_def Let_def)
qed

lemma strippedTitles_simps:
  "strippedTitles [] = []"
  "strippedTitles (TFile p b e # rest) =
     (if e = ''md'' then (case strippedTitle b of None \<Rightarrow> [] | Some n \<Rightarrow> [n]) else []) @ strippedTitles rest"
  "strippedTitles (TFolder p cs # rest) = strippedTitles cs @ strippedTitles rest"
  by (auto simp: strippedTitles_def List.map_filter_def split: option.splits)

lemma set_setAdd: "set (setAdd x xs) = insert x (set xs)"
  by (auto simp: setAdd_def)

lemma set_extractTitles_p0:
  "set (extractTitles_p0 cs titles) = set titles \<union> set (strippedTitles cs)"
proof (induction cs titles rule: extractTitles_p0.induct)
  case (1 titles)
  then show ?case by (simp add: strippedTitles_simps)
next
  case (2 p fileName ext rest titles)
  show ?case
  proof (cases "ext = ''md''")
    case False
    with 2 show ?thesis by (simp add: strippedTitles_simps)
  next
    case True
    show ?thesis
    proof (cases "strippedTitle fileName")
      case None
      with True 2 show ?thesis
        by (auto simp add: strippedTitles_simps strippedTitle_def Let_def split: if_splits)
    next
      case (Some t)
      with True 2 show ?thesis
        by (simp add: strippedTitles_simps strippedTitle_def Let_def set_setAdd split: if_splits)
    qed
  qed
next
  case (3 p cs rest titles)
  then show ?case by (auto simp: strippedTitles_simps)
qed

lemma titles_agree:
  assumes "\<forall>(b, e) \<in> set (allFiles cs). e = ''md'' \<longrightarrow> regularName b"
  shows "snd ` set (datedNotes cs) = set (strippedTitles cs)"
proof -
  have "map snd (datedNotes cs) = strippedTitles cs"
    using assms
  proof (induction cs rule: allFiles.induct)
    case 1
    then show ?case by (simp add: datedNotes_simps strippedTitles_simps)
  next
    case (2 p b e rest)
    show ?case
    proof (cases "e = ''md''")
      case True
      with 2 have "regularName b" by simp
      from datePattern_regular[OF this] have "strippedTitle b = map_option snd (datePattern b)"
        by simp
      with 2 True show ?thesis
        by (auto simp: datedNotes_simps strippedTitles_simps split: option.splits)
    next
      case False
      with 2 show ?thesis by (simp add: datedNotes_simps strippedTitles_simps)
    qed
  next
    case (3 p cs rest)
    then show ?case by (simp add: datedNotes_simps strippedTitles_simps)
  qed
  then show ?thesis by (metis set_map)
qed

lemma getPastNoteTitles_folder:
  assumes "getAbstractFileByPath h v (normalizePath h (baseFolder s)) = Some (TFolder p cs)"
  shows "getPastNoteTitles h s v =
           map fst (jsSort (\<lambda>a b. localeCompare h (snd b) (snd a))
                      (foldl keepMostRecent [] (datedNotes cs)))"
  using assms by (simp add: getPastNoteTitles_def extractTitles_foldl)

lemma set_getPastNoteTitles:
  assumes "getAbstractFileByPath h v (normalizePath h (baseFolder s)) = Some (TFolder p cs)"
  shows "set (getPastNoteTitles h s v) = snd ` set (datedNotes cs)"
  unfolding getPastNoteTitles_folder[OF assms]
  by (simp add: set_jsSort foldl_keys)

lemma distinct_getPastNoteTitles: "distinct (getPastNoteTitles h s v)"
proof -
  have "distinct (map fst (jsSort cmp (extractTitles cs []))) " for cmp cs
    unfolding distinct_map_jsSort extractTitles_foldl by (rule foldl_distinct) simp
  then show ?thesis
    by (auto simp: getPastNoteTitles_def split: option.splits abstract_file.splits)
qed

lemma set_getPastNoteTitles_p0:
  assumes "getAbstractFileByPath h v (normalizePath h (baseFolder s)) = Some (TFolder p cs)"
  shows "set (getPastNoteTitles_p0 h s v) = set (strippedTitles cs)"
  using assms by (simp add: getPastNoteTitles_p0_def set_jsSort set_extractTitles_p0)

lemma latest_is_Max:
  assumes "map_of (foldl keepMostRecent [] N) t = Some d"
  shows "d = Max {d'. (d', t) \<in> set N}"
proof -
  have fin: "finite {d'. (d', t) \<in> set N}"
    by (rule finite_subset[of _ "fst ` set N"]) (auto intro: rev_image_eqI)
  from foldl_latest[OF assms] have "(d, t) \<in> set N" "\<forall>d'. (d', t) \<in> set N \<longrightarrow> d' \<le> d"
    by auto
  then show ?thesis using fin by (intro Max_eqI[symmetric]) auto
qed

lemmas fixture_defs = memHost_def notesSettings_def sampleVault_def sampleTree_def
  fileAtBase_def blankTitleVault_def codeUnitCompare_def

lemmas pattern_defs = datePattern_def replaceDatePrefix_def isDate_def isDigit_def isSpace_def
  isDot_def isLineTerminator_def setAdd_def

lemma takeWhile_run:
  assumes "list_all P ws" "t \<noteq> []" "\<not> P (hd t)"
  shows "takeWhile P (ws @ t) = ws"
proof -
  have "takeWhile P (ws @ t) = ws @ takeWhile P t"
    using assms(1) by (simp add: list_all_iff)
  moreover have "takeWhile P t = []" using assms(2,3) by (cases t) auto
  ultimately show ?thesis by simp
qed

lemma datePattern_title:
  assumes "isDate d" "ws \<noteq> []" "list_all isSpace ws" "t \<noteq> []" "\<not> isSpace (hd t)"
    "list_all isDot t"
  shows "datePattern (d @ ws @ t) = Some (d, t)"
proof -
  have len: "length d = 10" using assms(1) by (rule isDate_length)
  then have td: "take 10 (d @ ws @ t) = d" "drop 10 (d @ ws @ t) = ws @ t" by simp_all
  have run: "takeWhile isSpace (ws @ t) = ws" using assms(3,4,5) by (rule takeWhile_run)
  obtain k where k: "length ws = Suc k" using assms(2) by (cases ws) auto
  have "drop (Suc k) (ws @ t) = t" using k by simp
  then have "backtrackSpaces (length ws) (ws @ t) = Some t"
    unfolding k using assms(4,6) by (simp add: Let_def)
  then show ?thesis
    unfolding datePattern_def td Let_def run using assms(1) by simp
qed

lemma datedNotes_complete:
  assumes "(d @ ws @ t, ''md'') \<in> set (allFiles cs)"
    "isDate d" "ws \<noteq> []" "list_all isSpace ws" "t \<noteq> []" "\<not> isSpace (hd t)" "list_all isDot t"
  shows "(d, t) \<in> set (datedNotes cs)"
proof -
  have "datePattern (d @ ws @ t) = Some (d, t)"
    using assms(2-) by (rule datePattern_title)
  with assms(1) show ?thesis
    unfolding datedNotes_def List.map_filter_def
    by (auto intro!: image_eqI[where x="(d @ ws @ t, ''md'')"])
qed

section \<open>Past titles: the claims\<close>

text \<open>
  Claim C1. When the base folder resolves to a folder with children \<open>cs\<close>,
  \<open>getPastNoteTitles\<close> returns every title once, and the titles are those of the dated
  notes of the tree. The date the map holds for a title is the greatest of the dates the
  title occurs with. Every dated note comes from a \<open>.md\<close> file, at any depth, whose
  basename is the date, white space and the title; and every \<open>.md\<close> file, at any depth,
  whose basename is a date, white space and a title free of line terminators that starts
  with no white space, has that title returned.
\<close>

theorem getPastNoteTitles_latest_per_title:
  assumes "getAbstractFileByPath h v (normalizePath h (baseFolder s)) = Some (TFolder p cs)"
  shows "distinct (getPastNoteTitles h s v)
       \<and> set (getPastNoteTitles h s v) = snd ` set (datedNotes cs)
       \<and> (\<forall>t \<in> set (getPastNoteTitles h s v).
             map_of (extractTitles cs []) t = Some (Max {d. (d, t) \<in> set (datedNotes cs)}))
       \<and> (\<forall>(d, t) \<in> set (datedNotes cs).
             \<exists>b ws. (b, ''md'') \<in> set (allFiles cs) \<and> b = d @ ws @ t \<and> isDate d
                    \<and> ws \<noteq> [] \<and> list_all isSpace ws)
       \<and> (\<forall>d ws t. (d @ ws @ t, ''md'') \<in> set (allFiles cs) \<and> isDate d
                    \<and> ws \<noteq> [] \<and> list_all isSpace ws
                    \<and> t \<noteq> [] \<and> \<not> isSpace (hd t) \<and> list_all isDot t
             \<longrightarrow> t \<in> set (getPastNoteTitles h s v))"
proof (intro conjI ballI allI impI)
  show "distinct (getPastNoteTitles h s v)" by (rule distinct_getPastNoteTitles)
  show keys: "set (getPastNoteTitles h s v) = snd ` set (datedNotes cs)"
    by (rule set_getPastNoteTitles[OF assms])
  show "map_of (extractTitles cs []) t = Some (Max {d. (d, t) \<in> set (datedNotes cs)})"
    if "t \<in> set (getPastNoteTitles h s v)" for t
  proof -
    from that keys have "t \<in> fst ` set (foldl keepMostRecent [] (datedNotes cs))"
      by (simp add: foldl_keys)
    then obtain d where d: "map_of (foldl keepMostRecent [] (datedNotes cs)) t = Some d"
      by (metis domD dom_map_of_conv_image_fst)
    from latest_is_Max[OF d] d show ?thesis by (simp add: extractTitles_foldl)
  qed
  show "case n of (d, t) \<Rightarrow> \<exists>b ws. (b, ''md'') \<in> set (allFiles cs) \<and> b = d @ ws @ t \<and> isDate d
                    \<and> ws \<noteq> [] \<and> list_all isSpace ws"
    if "n \<in> set (datedNotes cs)" for n
  proof -
    obtain d t where n: "n = (d, t)" by (cases n)
    from that obtain b where b: "(b, ''md'') \<in> set (allFiles cs)" "datePattern b = Some (d, t)"
      unfolding datedNotes_def n List.map_filter_def by (auto split: if_splits)
    from datePattern_SomeD[OF b(2)] b(1) show ?thesis unfolding n by auto
  qed
  show "t \<in> set (getPastNoteTitles h s v)"
    if "(d @ ws @ t, ''md'') \<in> set (allFiles cs) \<and> isDate d
          \<and> ws \<noteq> [] \<and> list_all isSpace ws
          \<and> t \<noteq> [] \<and> \<not> isSpace (hd t) \<and> list_all isDot t" for d ws t
  proof -
    from that have "(d, t) \<in> set (datedNotes cs)" by (intro datedNotes_complete) auto
    then show ?thesis unfolding keys by (rule rev_image_eqI) simp
  qed
qed

theorem getPastNoteTitles_latest_per_title_witness:
  "getAbstractFileByPath memHost sampleVault (normalizePath memHost (baseFolder notesSettings))
     = Some (TFolder ''Notes'' sampleTree)
   \<and> getPastNoteTitles memHost notesSettings sampleVault = [''Ideas'', ''Standup'']
   \<and> map_of (extractTitles sampleTree []) ''Standup'' = Some ''2024-03-01''
   \<and> Max {d. (d, ''Standup'') \<in> set (datedNotes sampleTree)} = ''2024-03-01''"
proof -
  have a: "getAbstractFileByPath memHost sampleVault (normalizePath memHost (baseFolder notesSettings))
     = Some (TFolder ''Notes'' sampleTree)"
    by (simp add: memHost_def notesSettings_def sampleVault_def)
  have b: "extractTitles sampleTree [] = [(''Standup'', ''2024-03-01''), (''Ideas'', ''2024-03-02'')]"
    by (simp add: sampleTree_def pattern_defs)
  have c: "getPastNoteTitles memHost notesSettings sampleVault = [''Ideas'', ''Standup'']"
    unfolding getPastNoteTitles_def a
    by (simp add: b memHost_def codeUnitCompare_def)
  from getPastNoteTitles_latest_per_title[OF a] a b c show ?thesis by simp
qed

text \<open>
  Claim C4, amended. When no \<open>.md\<close> basename under the base folder ends in white space or
  contains a line terminator, the map-based \<open>getPastNoteTitles\<close> of main.ts and the
  set-based one of part\_000 return lists with the same set of titles.
\<close>

theorem getPastNoteTitles_versions_agree:
  assumes "\<forall>(b, e) \<in> set (filesUnderBase h s v). e = ''md'' \<longrightarrow> regularName b"
  shows "set (getPastNoteTitles h s v) = set (getPastNoteTitles_p0 h s v)"
proof (cases "getAbstractFileByPath h v (normalizePath h (baseFolder s))")
  case None
  then show ?thesis by (simp add: getPastNoteTitles_def getPastNoteTitles_p0_def)
next
  case (Some f)
  show ?thesis
  proof (cases f)
    case (TFile p b e)
    with Some show ?thesis by (simp add: getPastNoteTitles_def getPastNoteTitles_p0_def)
  next
    case (TFolder p cs)
    with Some have l: "getAbstractFileByPath h v (normalizePath h (baseFolder s)) = Some (TFolder p cs)"
      by simp
    with assms have "\<forall>(b, e) \<in> set (allFiles cs). e = ''md'' \<longrightarrow> regularName b"
      by (simp add: filesUnderBase_def)
    from titles_agree[OF this] show ?thesis
      by (simp add: set_getPastNoteTitles[OF l] set_getPastNoteTitles_p0[OF l])
  qed
qed

theorem getPastNoteTitles_versions_agree_witness:
  "list_all (regularName \<circ> fst) (filesUnderBase memHost notesSettings sampleVault)
   \<and> set (getPastNoteTitles memHost notesSettings sampleVault)
       = set (getPastNoteTitles_p0 memHost notesSettings sampleVault)
   \<and> getPastNoteTitles_p0 memHost notesSettings sampleVault = [''Ideas'', ''Standup'']"
proof -
  have a: "list_all (regularName \<circ> fst) (filesUnderBase memHost notesSettings sampleVault)"
    by (simp add: filesUnderBase_def fixture_defs regularName_def isLineTerminator_def isSpace_def)
  then have a': "\<forall>(b, e) \<in> set (filesUnderBase memHost notesSettings sampleVault).
                   e = ''md'' \<longrightarrow> regularName b"
    by (auto simp: list_all_iff)
  have b: "getPastNoteTitles_p0 memHost notesSettings sampleVault = [''Ideas'', ''Standup'']"
    by (simp add: getPastNoteTitles_p0_def fixture_defs pattern_defs)
  from getPastNoteTitles_versions_agree[OF a'] a b show ?thesis by simp
qed

text \<open>
  Without that condition the two lists can differ: for a file \<open>2024-01-01  .md\<close>, whose
  basename is a date and two spaces, the pattern of main.ts backtracks and takes the second
  space as the title, while the pattern of part\_000 strips both and drops the empty rest.
\<close>

theorem getPastNoteTitles_versions_differ:
  "getPastNoteTitles memHost notesSettings blankTitleVault = ['' '']
   \<and> getPastNoteTitles_p0 memHost notesSettings blankTitleVault = []"
  by (simp add: getPastNoteTitles_def getPastNoteTitles_p0_def fixture_defs pattern_defs)

text \<open>
  Claim C10. When the base folder's path resolves to nothing, or to a file, both
  implementations of \<open>getPastNoteTitles\<close> return the empty list.
\<close>

theorem getPastNoteTitles_without_base_folder:
  "(getAbstractFileByPath h v (normalizePath h (baseFolder s)) = None
      \<longrightarrow> getPastNoteTitles h s v = [] \<and> getPastNoteTitles_p0 h s v = [])
   \<and> (getAbstractFileByPath h v (normalizePath h (baseFolder s)) = Some (TFile p b e)
      \<longrightarrow> getPastNoteTitles h s v = [] \<and> getPastNoteTitles_p0 h s v = [])"
  by (simp add: getPastNoteTitles_def getPastNoteTitles_p0_def)

theorem getPastNoteTitles_without_base_folder_witness:
  "getAbstractFileByPath memHost [] (normalizePath memHost (baseFolder notesSettings)) = None
   \<and> getPastNoteTitles memHost notesSettings [] = []
   \<and> getPastNoteTitles_p0 memHost notesSettings [] = []
   \<and> getAbstractFileByPath memHost fileAtBase (normalizePath memHost (baseFolder notesSettings))
       = Some (TFile ''Notes'' ''Notes'' [])
   \<and> getPastNoteTitles memHost notesSettings fileAtBase = []
   \<and> getPastNoteTitles_p0 memHost notesSettings fileAtBase = []"
proof -
  have a: "getAbstractFileByPath memHost [] (normalizePath memHost (baseFolder notesSettings)) = None"
    by (simp add: fixture_defs)
  have b: "getAbstractFileByPath memHost fileAtBase (normalizePath memHost (baseFolder notesSettings))
       = Some (TFile ''Notes'' ''Notes'' [])"
    by (simp add: fixture_defs)
  show ?thesis
    using a b
      getPastNoteTitles_without_base_folder[of memHost "[]" notesSettings]
      getPastNoteTitles_without_base_folder[of memHost fileAtBase notesSettings "''Notes''" "''Notes''" "[]"]
    by simp
qed

section \<open>Creating a note: the calls of a run\<close>

lemma trace_emit [simp]: "trace (emit cs st) = trace st @ cs"
  by (simp add: emit_def)

lemma vault_emit [simp]: "vault (emit cs st) = vault st"
  by (simp add: emit_def)

lemma newCalls_append [simp]: "trace st' = trace st @ cs \<Longrightarrow> newCalls st st' = cs"
  by (simp add: newCalls_def)

lemma ensureFolderExists_trace:
  "ensureFolderExists h fp st = (r, st1) \<Longrightarrow>
     trace st1 = trace st \<or> trace st1 = trace st @ [CreateFolder fp]"
  by (auto simp: ensureFolderExists_def split: option.splits sum.splits)

lemma ensureFolderExists_ready:
  "folderReady h (vault st) fp v1 \<Longrightarrow>
     \<exists>st1. ensureFolderExists h fp st = (Inr (), st1) \<and> vault st1 = v1
           \<and> (trace st1 = trace st \<or> trace st1 = trace st @ [CreateFolder fp])"
  by (auto simp: ensureFolderExists_def folderReady_def split: option.splits sum.splits)

lemma getNoteContent_trace:
  "getNoteContent h s title date st = (r, st2) \<Longrightarrow>
     vault st2 = vault st \<and>
     (trace st2 = trace st
      \<or> trace st2 = trace st @ [ConsoleWarn (''Template file not found: '' @ templatePath s)])
     \<and> (\<forall>c. r = Inr c \<longrightarrow> (\<exists>x. c = addFrontmatter x title date))"
  by (auto simp: getNoteContent_def split: option.splits sum.splits abstract_file.splits if_splits)

lemma getNoteContent_p0_trace:
  "getNoteContent_p0 h s st = (r, st2) \<Longrightarrow>
     vault st2 = vault st \<and>
     (trace st2 = trace st
      \<or> trace st2 = trace st @ [ConsoleWarn (''Template file not found: '' @ templatePath s)])"
  by (auto simp: getNoteContent_p0_def split: option.splits sum.splits abstract_file.splits if_splits)

lemma createQuickNote_submit:
  "createQuickNote h s now inputValue st =
     (if trim inputValue \<noteq> [] then onSubmit h s now (trim inputValue) st
      else emit [Notice ''Please enter a note title''] st)"
  "createQuickNote_p0 h s now inputValue st =
     (if trim inputValue \<noteq> [] then onSubmit_p0 h s now (trim inputValue) st
      else emit [Notice ''Please enter a note title''] st)"
  by (simp_all add: createQuickNote_def createQuickNote_p0_def submit_def Let_def)

lemma onSubmit_existing:
  assumes "getAbstractFileByPath h (vault st) (filePathOf h s now title) = Some (TFile p b e)"
  shows "onSubmit h s now title st =
           emit (OpenFile (TFile p b e) #
                   (case openFile h (vault st) (TFile p b e) of
                      Inr u \<Rightarrow> [Notice (''Opened existing note: '' @ title)]
                    | Inl err \<Rightarrow> [ConsoleError ''Error creating quick note:'' err,
                                  Notice (''Failed to create note: '' @ err)])) st"
    and "onSubmit_p0 h s now title st =
           emit (OpenFile (TFile p b e) #
                   (case openFile h (vault st) (TFile p b e) of
                      Inr u \<Rightarrow> [Notice (''Opened existing note: '' @ title)]
                    | Inl err \<Rightarrow> [ConsoleError ''Error creating quick note:'' err,
                                  Notice (''Failed to create note: '' @ err)])) st"
  using assms
  by (auto simp add: onSubmit_def onSubmit_p0_def filePathOf_def folderPathOf_def Let_def emit_def
        split: sum.splits)


lemma onSubmit_content:
  "Create p c \<in> set (newCalls st (onSubmit h s now title st)) \<Longrightarrow>
     \<exists>x. c = addFrontmatter x title (formatDate now)"
  unfolding onSubmit_def Let_def newCalls_def
  by (auto split: option.splits abstract_file.splits prod.splits sum.splits
           dest!: ensureFolderExists_trace getNoteContent_trace)


lemma onSubmit_new_note:
  assumes nf: "\<forall>p b e. getAbstractFileByPath h (vault st) (filePathOf h s now title) \<noteq> Some (TFile p b e)"
    and e: "ensureFolderExists h (folderPathOf h s now) st = (Inr (), st1)"
    and g: "getNoteContent h s title (formatDate now) st1 = (Inr content, st2)"
  shows "(Create q c \<in> set (newCalls st (onSubmit h s now title st)))
           = (q = filePathOf h s now title \<and> c = content)"
proof -
  from ensureFolderExists_trace[OF e] obtain c1 where
    c1: "trace st1 = trace st @ c1" "\<forall>q c. Create q c \<notin> set c1" by auto
  from getNoteContent_trace[OF g] obtain c2 where
    c2: "trace st2 = trace st1 @ c2" "\<forall>q c. Create q c \<notin> set c2" by auto
  show ?thesis
    using nf e g c1 c2
    unfolding onSubmit_def Let_def newCalls_def filePathOf_def folderPathOf_def
    by (auto split: sum.splits option.splits abstract_file.splits)
qed

lemma onSubmit_p0_new_note:
  assumes nf: "\<forall>p b e. getAbstractFileByPath h (vault st) (filePathOf h s now title) \<noteq> Some (TFile p b e)"
    and e: "ensureFolderExists h (folderPathOf h s now) st = (Inr (), st1)"
    and g: "getNoteContent_p0 h s st1 = (Inr content, st2)"
  shows "(Create q c \<in> set (newCalls st (onSubmit_p0 h s now title st)))
           = (q = filePathOf h s now title \<and> c = content)"
proof -
  from ensureFolderExists_trace[OF e] obtain c1 where
    c1: "trace st1 = trace st @ c1" "\<forall>q c. Create q c \<notin> set c1" by auto
  from getNoteContent_p0_trace[OF g] obtain c2 where
    c2: "trace st2 = trace st1 @ c2" "\<forall>q c. Create q c \<notin> set c2" by auto
  show ?thesis
    using nf e g c1 c2
    unfolding onSubmit_p0_def Let_def newCalls_def filePathOf_def folderPathOf_def
    by (auto split: sum.splits option.splits abstract_file.splits)
qed

lemma getNoteContent_template:
  assumes "templatePath s \<noteq> []"
    "getAbstractFileByPath h (vault st) (normalizePath h (templatePath s)) = Some (TFile p b e)"
    "read h (vault st) (TFile p b e) = Inr template"
  shows "getNoteContent h s title date st = (Inr (addFrontmatter template title date), st)"
    and "getNoteContent_p0 h s st = (Inr template, st)"
  using assms by (simp_all add: getNoteContent_def getNoteContent_p0_def)

lemma addFrontmatter_empty:
  "addFrontmatter [] title date =
     ''---\<newline>title: '' @ title @ ''\<newline>date: '' @ date @ ''\<newline>---\<newline>\<newline>''"
  by (simp add: addFrontmatter_def startsWith_def trimStart_def)

lemma getNoteContent_no_template:
  assumes "templatePath s = []
        \<or> (\<forall>p b e. getAbstractFileByPath h (vault st) (normalizePath h (templatePath s))
                      \<noteq> Some (TFile p b e))"
  shows "\<exists>st2. getNoteContent h s title date st
           = (Inr (''---\<newline>title: '' @ title @ ''\<newline>date: '' @ date @ ''\<newline>---\<newline>\<newline>''), st2)"
    and "\<exists>st2. getNoteContent_p0 h s st = (Inr [], st2)"
  using assms
  by (auto simp: getNoteContent_def getNoteContent_p0_def addFrontmatter_empty
           split: option.splits abstract_file.splits)

lemma addFrontmatter_carries: "carriesFrontmatter (addFrontmatter content title date)"
  using addFrontmatter_block[of content title date]
  by (simp add: carriesFrontmatter_def)

lemma createQuickNote_carries:
  "Create p c \<in> set (newCalls st (createQuickNote h s now inputValue st)) \<Longrightarrow>
     carriesFrontmatter c"
proof (cases "trim inputValue = []")
  case True
  assume "Create p c \<in> set (newCalls st (createQuickNote h s now inputValue st))"
  with True show ?thesis by (simp add: createQuickNote_submit)
next
  case False
  assume "Create p c \<in> set (newCalls st (createQuickNote h s now inputValue st))"
  with False have "Create p c \<in> set (newCalls st (onSubmit h s now (trim inputValue) st))"
    by (simp add: createQuickNote_submit)
  from onSubmit_content[OF this] show ?thesis
    using addFrontmatter_carries by auto
qed

section \<open>Creating a note: dates and numerals\<close>














lemmas date_defs = formatDate_def intToString_def padStart_def digitChar_def natToString.simps

lemmas run_defs = createQuickNote_submit onSubmit_def onSubmit_p0_def formatDate_def
  ensureFolderExists_def getNoteContent_def getNoteContent_p0_def newCalls_def
  memHost_def start_def notesSettings_def march5_def lastSegment_def
  intToString_def padStart_def digitChar_def natToString.simps emit_def Let_def

lemma march5_paths:
  "formatDate march5 = ''2024-03-05''"
  "folderPathOf memHost notesSettings march5 = ''Notes/2024/03''"
  "filePathOf memHost notesSettings march5 ''Plan'' = ''Notes/2024/03/2024-03-05 Plan.md''"
  by (simp_all add: filePathOf_def folderPathOf_def memHost_def march5_def notesSettings_def date_defs)

lemma trim_Plan: "trim '' Plan  '' = ''Plan''"
  by (simp add: trim_def isSpace_def)

section \<open>Creating a note: the claims\<close>



text \<open>
  Claim C5, amended. A title is submitted, no file is at the note's path, and the folder
  is there or has been created, the vault then being \<open>v1\<close>. In main.ts: when a template
  path is set and resolves in \<open>v1\<close> to a file that can be read, what \<open>createQuickNote\<close>
  creates is the note at its path, with \<open>addFrontmatter\<close> of the template's content, the
  submitted title and the formatted date as its content; when no template path is set or it does not resolve
  to a file, the content is just the block with the title and the date; and the content
  of every note \<open>createQuickNote\<close> creates is an opening \<open>---\<close> line, a text with a \<open>title:\<close>
  line and a \<open>date:\<close> line, a closing \<open>---\<close> line and a rest. In part\_000 the content is the
  template's content as it is, or the empty string: no frontmatter is added.
\<close>

theorem createQuickNote_note_content:
  assumes "trim inputValue \<noteq> []"
    and "\<forall>p b e. getAbstractFileByPath h (vault st) (filePathOf h s now (trim inputValue))
                   \<noteq> Some (TFile p b e)"
    and "folderReady h (vault st) (folderPathOf h s now) v1"
  shows
   "(templatePath s \<noteq> []
      \<and> getAbstractFileByPath h v1 (normalizePath h (templatePath s)) = Some (TFile p b e)
      \<and> read h v1 (TFile p b e) = Inr template
    \<longrightarrow> (\<forall>q c. (Create q c \<in> set (newCalls st (createQuickNote h s now inputValue st)))
                  = (q = filePathOf h s now (trim inputValue)
                     \<and> c = addFrontmatter template (trim inputValue) (formatDate now)))
        \<and> (\<forall>q c. (Create q c \<in> set (newCalls st (createQuickNote_p0 h s now inputValue st)))
                  = (q = filePathOf h s now (trim inputValue) \<and> c = template)))
    \<and> (templatePath s = []
        \<or> (\<forall>p b e. getAbstractFileByPath h v1 (normalizePath h (templatePath s))
                      \<noteq> Some (TFile p b e))
    \<longrightarrow> (\<forall>q c. (Create q c \<in> set (newCalls st (createQuickNote h s now inputValue st)))
                  = (q = filePathOf h s now (trim inputValue)
                     \<and> c = ''---\<newline>title: '' @ trim inputValue @ ''\<newline>date: '' @ formatDate now
                           @ ''\<newline>---\<newline>\<newline>''))
        \<and> (\<forall>q c. (Create q c \<in> set (newCalls st (createQuickNote_p0 h s now inputValue st)))
                  = (q = filePathOf h s now (trim inputValue) \<and> c = [])))
    \<and> (\<forall>q c. Create q c \<in> set (newCalls st (createQuickNote h s now inputValue st))
          \<longrightarrow> carriesFrontmatter c)"
proof -
  let ?title = "trim inputValue"
  from ensureFolderExists_ready[OF assms(3)] obtain st1 where
    e: "ensureFolderExists h (folderPathOf h s now) st = (Inr (), st1)" and v1: "vault st1 = v1"
    by blast
  have run: "createQuickNote h s now inputValue st = onSubmit h s now ?title st"
    "createQuickNote_p0 h s now inputValue st = onSubmit_p0 h s now ?title st"
    using assms(1) by (simp_all add: createQuickNote_submit)
  have tmpl: "(\<forall>q c. (Create q c \<in> set (newCalls st (createQuickNote h s now inputValue st)))
                  = (q = filePathOf h s now ?title
                     \<and> c = addFrontmatter template ?title (formatDate now)))
        \<and> (\<forall>q c. (Create q c \<in> set (newCalls st (createQuickNote_p0 h s now inputValue st)))
                  = (q = filePathOf h s now ?title \<and> c = template))"
    if "templatePath s \<noteq> []
      \<and> getAbstractFileByPath h v1 (normalizePath h (templatePath s)) = Some (TFile p b e)
      \<and> read h v1 (TFile p b e) = Inr template"
  proof -
    from that v1 have
      g: "getNoteContent h s ?title (formatDate now) st1
            = (Inr (addFrontmatter template ?title (formatDate now)), st1)"
      and g0: "getNoteContent_p0 h s st1 = (Inr template, st1)"
      by (simp_all add: getNoteContent_template)
    show ?thesis
      by (simp only: run onSubmit_new_note[OF assms(2) e g] onSubmit_p0_new_note[OF assms(2) e g0]
            simp_thms)
  qed
  have none: "(\<forall>q c. (Create q c \<in> set (newCalls st (createQuickNote h s now inputValue st)))
                  = (q = filePathOf h s now ?title
                     \<and> c = ''---\<newline>title: '' @ ?title @ ''\<newline>date: '' @ formatDate now
                           @ ''\<newline>---\<newline>\<newline>''))
        \<and> (\<forall>q c. (Create q c \<in> set (newCalls st (createQuickNote_p0 h s now inputValue st)))
                  = (q = filePathOf h s now ?title \<and> c = []))"
    if "templatePath s = []
        \<or> (\<forall>p b e. getAbstractFileByPath h v1 (normalizePath h (templatePath s))
                      \<noteq> Some (TFile p b e))"
  proof -
    from that v1 have n: "templatePath s = []
        \<or> (\<forall>p b e. getAbstractFileByPath h (vault st1) (normalizePath h (templatePath s))
                      \<noteq> Some (TFile p b e))" by simp
    from getNoteContent_no_template(1)[OF n, of ?title "formatDate now"] obtain st2 where
      g: "getNoteContent h s ?title (formatDate now) st1
            = (Inr (''---\<newline>title: '' @ ?title @ ''\<newline>date: '' @ formatDate now @ ''\<newline>---\<newline>\<newline>''), st2)"
      by blast
    from getNoteContent_no_template(2)[OF n] obtain st2' where
      g0: "getNoteContent_p0 h s st1 = (Inr [], st2')" by blast
    show ?thesis
      by (simp only: run onSubmit_new_note[OF assms(2) e g] onSubmit_p0_new_note[OF assms(2) e g0]
            simp_thms)
  qed
  have carr: "\<forall>q c. Create q c \<in> set (newCalls st (createQuickNote h s now inputValue st))
          \<longrightarrow> carriesFrontmatter c"
    by (intro allI impI) (rule createQuickNote_carries)
  from tmpl have 1: "templatePath s \<noteq> []
      \<and> getAbstractFileByPath h v1 (normalizePath h (templatePath s)) = Some (TFile p b e)
      \<and> read h v1 (TFile p b e) = Inr template
    \<longrightarrow> (\<forall>q c. (Create q c \<in> set (newCalls st (createQuickNote h s now inputValue st)))
                  = (q = filePathOf h s now ?title
                     \<and> c = addFrontmatter template ?title (formatDate now)))
        \<and> (\<forall>q c. (Create q c \<in> set (newCalls st (createQuickNote_p0 h s now inputValue st)))
                  = (q = filePathOf h s now ?title \<and> c = template))"
    by (rule impI)
  from none have 2: "templatePath s = []
        \<or> (\<forall>p b e. getAbstractFileByPath h v1 (normalizePath h (templatePath s))
                      \<noteq> Some (TFile p b e))
    \<longrightarrow> (\<forall>q c. (Create q c \<in> set (newCalls st (createQuickNote h s now inputValue st)))
                  = (q = filePathOf h s now ?title
                     \<and> c = ''---\<newline>title: '' @ ?title @ ''\<newline>date: '' @ formatDate now
                           @ ''\<newline>---\<newline>\<newline>''))
        \<and> (\<forall>q c. (Create q c \<in> set (newCalls st (createQuickNote_p0 h s now inputValue st)))
                  = (q = filePathOf h s now ?title \<and> c = []))"
    by (rule impI)
  from 1 2 carr show ?thesis by (intro conjI)
qed

theorem createQuickNote_note_content_witness:
  "trim '' Plan  '' = ''Plan''
   \<and> folderReady memHost templateVault ''Notes/2024/03'' notesFolderVault
   \<and> read memHost notesFolderVault (TFile ''Templates/note.md'' ''note'' ''md'')
       = Inr ''---\<newline>tags: x\<newline>---\<newline>Body''
   \<and> Create ''Notes/2024/03/2024-03-05 Plan.md''
        ''---\<newline>title: Plan\<newline>date: 2024-03-05\<newline>tags: x\<newline>---\<newline>Body''
       \<in> set (newCalls (start templateVault)
                (createQuickNote memHost templateSettings march5 '' Plan  '' (start templateVault)))
   \<and> Create ''Notes/2024/03/2024-03-05 Plan.md'' ''---\<newline>tags: x\<newline>---\<newline>Body''
       \<in> set (newCalls (start templateVault)
                (createQuickNote_p0 memHost templateSettings march5 '' Plan  '' (start templateVault)))
   \<and> Create ''Notes/2024/03/2024-03-05 Plan.md''
        ''---\<newline>title: Plan\<newline>date: 2024-03-05\<newline>---\<newline>\<newline>''
       \<in> set (newCalls (start templateVault)
                (createQuickNote memHost notesSettings march5 '' Plan  '' (start templateVault)))
   \<and> carriesFrontmatter ''---\<newline>title: Plan\<newline>date: 2024-03-05\<newline>tags: x\<newline>---\<newline>Body''"
proof -
  have t: "''Plan'' \<noteq> []" by simp
  have fp: "filePathOf memHost templateSettings march5 ''Plan'' = ''Notes/2024/03/2024-03-05 Plan.md''"
    "folderPathOf memHost templateSettings march5 = ''Notes/2024/03''"
    "filePathOf memHost notesSettings march5 ''Plan'' = ''Notes/2024/03/2024-03-05 Plan.md''"
    "folderPathOf memHost notesSettings march5 = ''Notes/2024/03''"
    "formatDate march5 = ''2024-03-05''"
    by (simp_all add: filePathOf_def folderPathOf_def memHost_def march5_def notesSettings_def
          templateSettings_def date_defs)
  have v: "vault (start templateVault) = templateVault" by (simp add: start_def)
  have nf: "\<forall>p b e. getAbstractFileByPath memHost templateVault ''Notes/2024/03/2024-03-05 Plan.md''
                   \<noteq> Some (TFile p b e)"
    by (simp add: memHost_def templateVault_def)
  have fr: "folderReady memHost templateVault ''Notes/2024/03'' notesFolderVault"
    by (simp add: folderReady_def memHost_def templateVault_def notesFolderVault_def)
  have tp: "templatePath templateSettings \<noteq> []
      \<and> getAbstractFileByPath memHost notesFolderVault (normalizePath memHost (templatePath templateSettings))
          = Some (TFile ''Templates/note.md'' ''note'' ''md'')
      \<and> read memHost notesFolderVault (TFile ''Templates/note.md'' ''note'' ''md'')
          = Inr ''---\<newline>tags: x\<newline>---\<newline>Body''"
    by (simp add: memHost_def templateSettings_def templateVault_def notesFolderVault_def)
  have af: "addFrontmatter ''---\<newline>tags: x\<newline>---\<newline>Body'' ''Plan'' ''2024-03-05''
      = ''---\<newline>title: Plan\<newline>date: 2024-03-05\<newline>tags: x\<newline>---\<newline>Body''"
    by (simp add: frontmatter_defs)
  have n: "templatePath notesSettings = []" by (simp add: notesSettings_def)
  note w1 = createQuickNote_note_content[where h=memHost and s=templateSettings and now=march5
      and inputValue="'' Plan  ''" and st="start templateVault" and ?v1.0=notesFolderVault
      and p="''Templates/note.md''" and b="''note''" and e="''md''"
      and template="''---\<newline>tags: x\<newline>---\<newline>Body''",
      unfolded trim_Plan fp v, OF t nf fr]
  note w2 = createQuickNote_note_content[where h=memHost and s=notesSettings and now=march5
      and inputValue="'' Plan  ''" and st="start templateVault" and ?v1.0=notesFolderVault,
      unfolded trim_Plan fp v, OF t nf fr]
  from w1 tp af have a:
    "Create ''Notes/2024/03/2024-03-05 Plan.md''
        ''---\<newline>title: Plan\<newline>date: 2024-03-05\<newline>tags: x\<newline>---\<newline>Body''
       \<in> set (newCalls (start templateVault)
                (createQuickNote memHost templateSettings march5 '' Plan  '' (start templateVault)))"
    "Create ''Notes/2024/03/2024-03-05 Plan.md'' ''---\<newline>tags: x\<newline>---\<newline>Body''
       \<in> set (newCalls (start templateVault)
                (createQuickNote_p0 memHost templateSettings march5 '' Plan  '' (start templateVault)))"
    by simp_all
  from w1[THEN conjunct2, THEN conjunct2, rule_format, OF a(1)]
  have c: "carriesFrontmatter ''---\<newline>title: Plan\<newline>date: 2024-03-05\<newline>tags: x\<newline>---\<newline>Body''" .
  from w2 n have b:
    "Create ''Notes/2024/03/2024-03-05 Plan.md''
        ''---\<newline>title: Plan\<newline>date: 2024-03-05\<newline>---\<newline>\<newline>''
       \<in> set (newCalls (start templateVault)
                (createQuickNote memHost notesSettings march5 '' Plan  '' (start templateVault)))"
    by simp
  from trim_Plan fr tp a b c show ?thesis by (intro conjI) simp_all
qed

text \<open>
  In part\_000, a note created with no template configured is empty: it carries no
  frontmatter, and its content is not the block with the title and the date.
\<close>

theorem createQuickNote_p0_note_is_empty:
  "newCalls (start []) (createQuickNote_p0 memHost notesSettings march5 '' Plan  '' (start []))
      = [CreateFolder ''Notes/2024/03'',
         Create ''Notes/2024/03/2024-03-05 Plan.md'' [],
         OpenFile (TFile ''Notes/2024/03/2024-03-05 Plan.md'' ''2024-03-05 Plan'' ''md''),
         Notice ''Created note: Plan'']
   \<and> \<not> carriesFrontmatter []"
  by (simp add: run_defs trim_Plan carriesFrontmatter_def)

text \<open>
  Claim C9. When the user submits a title and the target path already holds a file, both
  implementations of \<open>createQuickNote\<close> leave the vault as it is, call neither \<open>create\<close> nor
  \<open>createFolder\<close>, and open that file: the calls of the run are \<open>openFile\<close> on it and then
  the notice that the note was opened, or, when \<open>openFile\<close> rejects, the error log and the
  notice of the \<open>catch\<close> block.
\<close>

theorem createQuickNote_existing_file:
  assumes "trim inputValue \<noteq> []"
    and "getAbstractFileByPath h (vault st) (filePathOf h s now (trim inputValue))
           = Some (TFile p b e)"
  shows "vault (createQuickNote h s now inputValue st) = vault st
       \<and> vault (createQuickNote_p0 h s now inputValue st) = vault st
       \<and> newCalls st (createQuickNote_p0 h s now inputValue st)
           = newCalls st (createQuickNote h s now inputValue st)
       \<and> (\<exists>rest. newCalls st (createQuickNote h s now inputValue st)
                    = OpenFile (TFile p b e) # rest
                 \<and> (\<forall>q c. Create q c \<notin> set rest) \<and> (\<forall>q. CreateFolder q \<notin> set rest))
       \<and> (openFile h (vault st) (TFile p b e) = Inr ()
            \<longrightarrow> newCalls st (createQuickNote h s now inputValue st)
                = [OpenFile (TFile p b e), Notice (''Opened existing note: '' @ trim inputValue)])
       \<and> (\<forall>err. openFile h (vault st) (TFile p b e) = Inl err
            \<longrightarrow> newCalls st (createQuickNote h s now inputValue st)
                = [OpenFile (TFile p b e), ConsoleError ''Error creating quick note:'' err,
                   Notice (''Failed to create note: '' @ err)])"
  using assms(1) onSubmit_existing[OF assms(2)]
  by (auto simp: createQuickNote_submit split: sum.splits)

theorem createQuickNote_existing_file_witness:
  "trim '' Plan  '' = ''Plan''
   \<and> getAbstractFileByPath memHost existingNoteVault ''Notes/2024/03/2024-03-05 Plan.md''
       = Some (TFile ''Notes/2024/03/2024-03-05 Plan.md'' ''2024-03-05 Plan'' ''md'')
   \<and> openFile memHost existingNoteVault
        (TFile ''Notes/2024/03/2024-03-05 Plan.md'' ''2024-03-05 Plan'' ''md'') = Inr ()
   \<and> vault (createQuickNote memHost notesSettings march5 '' Plan  '' (start existingNoteVault))
       = existingNoteVault
   \<and> newCalls (start existingNoteVault)
        (createQuickNote memHost notesSettings march5 '' Plan  '' (start existingNoteVault))
       = [OpenFile (TFile ''Notes/2024/03/2024-03-05 Plan.md'' ''2024-03-05 Plan'' ''md''),
          Notice ''Opened existing note: Plan'']
   \<and> newCalls (start existingNoteVault)
        (createQuickNote_p0 memHost notesSettings march5 '' Plan  '' (start existingNoteVault))
       = [OpenFile (TFile ''Notes/2024/03/2024-03-05 Plan.md'' ''2024-03-05 Plan'' ''md''),
          Notice ''Opened existing note: Plan'']
   \<and> openFile lockedHost existingNoteVault
        (TFile ''Notes/2024/03/2024-03-05 Plan.md'' ''2024-03-05 Plan'' ''md'')
       = Inl ''Cannot open file.''
   \<and> vault (createQuickNote lockedHost notesSettings march5 '' Plan  '' (start existingNoteVault))
       = existingNoteVault
   \<and> newCalls (start existingNoteVault)
        (createQuickNote lockedHost notesSettings march5 '' Plan  '' (start existingNoteVault))
       = [OpenFile (TFile ''Notes/2024/03/2024-03-05 Plan.md'' ''2024-03-05 Plan'' ''md''),
          ConsoleError ''Error creating quick note:'' ''Cannot open file.'',
          Notice ''Failed to create note: Cannot open file.'']"
proof -
  have a: "trim '' Plan  '' \<noteq> []" by (simp add: trim_Plan)
  have l: "getAbstractFileByPath memHost existingNoteVault ''Notes/2024/03/2024-03-05 Plan.md''
       = Some (TFile ''Notes/2024/03/2024-03-05 Plan.md'' ''2024-03-05 Plan'' ''md'')"
    by (simp add: memHost_def existingNoteVault_def)
  have o: "openFile memHost existingNoteVault
        (TFile ''Notes/2024/03/2024-03-05 Plan.md'' ''2024-03-05 Plan'' ''md'') = Inr ()"
    by (simp add: memHost_def existingNoteVault_def)
  from l have b: "getAbstractFileByPath memHost (vault (start existingNoteVault))
          (filePathOf memHost notesSettings march5 (trim '' Plan  ''))
       = Some (TFile ''Notes/2024/03/2024-03-05 Plan.md'' ''2024-03-05 Plan'' ''md'')"
    by (simp add: trim_Plan march5_paths start_def)
  have v: "vault (start existingNoteVault) = existingNoteVault" by (simp add: start_def)
  have fp: "filePathOf lockedHost notesSettings march5 ''Plan''
              = filePathOf memHost notesSettings march5 ''Plan''"
    by (simp add: filePathOf_def folderPathOf_def lockedHost_def)
  from l have b': "getAbstractFileByPath lockedHost (vault (start existingNoteVault))
          (filePathOf lockedHost notesSettings march5 (trim '' Plan  ''))
       = Some (TFile ''Notes/2024/03/2024-03-05 Plan.md'' ''2024-03-05 Plan'' ''md'')"
    unfolding trim_Plan fp by (simp add: march5_paths start_def lockedHost_def)
  have o': "openFile lockedHost existingNoteVault
        (TFile ''Notes/2024/03/2024-03-05 Plan.md'' ''2024-03-05 Plan'' ''md'')
       = Inl ''Cannot open file.''"
    by (simp add: lockedHost_def)
  from createQuickNote_existing_file[OF a b] o
  have 1: "vault (createQuickNote memHost notesSettings march5 '' Plan  '' (start existingNoteVault))
       = existingNoteVault"
    "newCalls (start existingNoteVault)
        (createQuickNote memHost notesSettings march5 '' Plan  '' (start existingNoteVault))
       = [OpenFile (TFile ''Notes/2024/03/2024-03-05 Plan.md'' ''2024-03-05 Plan'' ''md''),
          Notice ''Opened existing note: Plan'']"
    "newCalls (start existingNoteVault)
        (createQuickNote_p0 memHost notesSettings march5 '' Plan  '' (start existingNoteVault))
       = [OpenFile (TFile ''Notes/2024/03/2024-03-05 Plan.md'' ''2024-03-05 Plan'' ''md''),
          Notice ''Opened existing note: Plan'']"
    unfolding v trim_Plan by simp_all
  from createQuickNote_existing_file[OF a b'] o'
  have 2: "vault (createQuickNote lockedHost notesSettings march5 '' Plan  '' (start existingNoteVault))
       = existingNoteVault"
    "newCalls (start existingNoteVault)
        (createQuickNote lockedHost notesSettings march5 '' Plan  '' (start existingNoteVault))
       = [OpenFile (TFile ''Notes/2024/03/2024-03-05 Plan.md'' ''2024-03-05 Plan'' ''md''),
          ConsoleError ''Error creating quick note:'' ''Cannot open file.'',
          Notice ''Failed to create note: Cannot open file.'']"
    unfolding v trim_Plan by simp_all
  from trim_Plan l o 1 o' 2 show ?thesis by (intro conjI)
qed

section \<open>Suggestions\<close>

lemma trim_empty_iff: "trim q = [] \<longleftrightarrow> list_all isSpace q"
proof
  assume "list_all isSpace q"
  then have d: "dropWhile isSpace q = []" by (simp add: list_all_iff)
  show "trim q = []" unfolding trim_def d by simp
next
  assume t: "trim q = []"
  show "list_all isSpace q"
  proof (rule ccontr)
    assume "\<not> list_all isSpace q"
    then have ne: "dropWhile isSpace q \<noteq> []" by (simp add: list_all_iff)
    then have "\<not> isSpace (hd (dropWhile isSpace q))" by (rule hd_dropWhile)
    moreover have "hd (dropWhile isSpace q) \<in> set (rev (dropWhile isSpace q))"
      using ne by simp
    ultimately have "dropWhile isSpace (rev (dropWhile isSpace q)) \<noteq> []"
      by (metis dropWhile_eq_Nil_conv)
    with t show False by (simp add: trim_def)
  qed
qed

lemma toLowerCase_Nil: "toLowerCase s = [] \<longleftrightarrow> s = []"
  by (simp add: toLowerCase_def)

lemma toLowerChar_code:
  "(of_char (toLowerChar c) :: nat) = (if isCapital c then of_char c + 32 else of_char c)"
  by (cases c) (auto simp: toLowerChar_def isCapital_def Let_def less_eq_char_def)

lemma isCapital_code:
  "isCapital c \<longleftrightarrow> (65 \<le> (of_char c :: nat) \<and> (of_char c :: nat) \<le> 90)
       \<or> (192 \<le> (of_char c :: nat) \<and> (of_char c :: nat) \<le> 222 \<and> (of_char c :: nat) \<noteq> 215)"
proof -
  have "c \<noteq> CHR 0xD7 \<longleftrightarrow> (of_char c :: nat) \<noteq> of_char (CHR 0xD7)"
    by (simp only: of_char_eq_iff)
  then show ?thesis by (simp add: isCapital_def less_eq_char_def)
qed

lemma toLowerChar_same: "toLowerChar a = toLowerChar b \<longleftrightarrow> sameLetter a b"
proof -
  have "toLowerChar a = toLowerChar b
        \<longleftrightarrow> (of_char (toLowerChar a) :: nat) = of_char (toLowerChar b)"
    by (simp only: of_char_eq_iff)
  moreover have "a = b \<longleftrightarrow> (of_char a :: nat) = of_char b"
    by (simp only: of_char_eq_iff)
  ultimately show ?thesis
    unfolding sameLetter_def toLowerChar_code isCapital_code by (auto split: if_splits)
qed

lemma toLowerCase_same: "toLowerCase m = toLowerCase q \<longleftrightarrow> list_all2 sameLetter m q"
proof -
  have "list_all2 sameLetter m q = list_all2 (\<lambda>a b. toLowerChar a = toLowerChar b) m q"
    by (simp add: toLowerChar_same[abs_def])
  also have "\<dots> = list_all2 (=) (map toLowerChar m) (map toLowerChar q)"
    by (simp add: list_all2_map1 list_all2_map2)
  also have "\<dots> = (toLowerCase m = toLowerCase q)"
    by (simp add: list.rel_eq toLowerCase_def)
  finally show ?thesis by simp
qed

lemma containsIgnoringCase_pieces:
  "containsIgnoringCase t q \<longleftrightarrow> (\<exists>ps m ss. t = ps @ m @ ss \<and> list_all2 sameLetter m q)"
proof
  assume "containsIgnoringCase t q"
  then obtain s where s: "suffix s t" "list_all2 sameLetter (take (length q) s) q"
    by (auto simp: containsIgnoringCase_def list_ex_iff)
  from s(1) obtain ps where "t = ps @ s" by (auto simp: suffix_def)
  then have "t = ps @ take (length q) s @ drop (length q) s" by simp
  with s(2) show "\<exists>ps m ss. t = ps @ m @ ss \<and> list_all2 sameLetter m q" by blast
next
  assume "\<exists>ps m ss. t = ps @ m @ ss \<and> list_all2 sameLetter m q"
  then obtain ps m ss where t: "t = ps @ m @ ss" and m: "list_all2 sameLetter m q" by blast
  from m have "length m = length q" by (rule list_all2_lengthD)
  with m have a: "list_all2 sameLetter (take (length q) (m @ ss)) q" by simp
  from t have b: "m @ ss \<in> set (suffixes t)" by (simp add: suffix_def)
  from b a show "containsIgnoringCase t q"
    unfolding containsIgnoringCase_def list_ex_iff by (rule bexI[rotated])
qed

lemma includes_lower:
  "includes_str (toLowerCase t) (toLowerCase q) \<longleftrightarrow> containsIgnoringCase t q"
proof
  assume "includes_str (toLowerCase t) (toLowerCase q)"
  then obtain ps' ss' where "map toLowerChar t = ps' @ (map toLowerChar q @ ss')"
    by (auto simp: includes_str_def toLowerCase_def sublist_def)
  from this[unfolded map_eq_append_conv] obtain ps r where
    r: "t = ps @ r" "map toLowerChar q @ ss' = map toLowerChar r"
    by blast
  from r(2)[symmetric, unfolded map_eq_append_conv] obtain m ss where
    "r = m @ ss" "map toLowerChar q = map toLowerChar m"
    by blast
  with r have "t = ps @ m @ ss" "toLowerCase m = toLowerCase q"
    by (simp_all add: toLowerCase_def)
  then show "containsIgnoringCase t q"
    unfolding containsIgnoringCase_pieces toLowerCase_same by blast
next
  assume "containsIgnoringCase t q"
  then obtain ps m ss where "t = ps @ m @ ss" "toLowerCase m = toLowerCase q"
    unfolding containsIgnoringCase_pieces toLowerCase_same by blast
  then show "includes_str (toLowerCase t) (toLowerCase q)"
    by (auto simp: includes_str_def toLowerCase_def sublist_def)
qed

text \<open>
  Claim C8, amended. For past titles and a query of the modelled range, code units below
  256 (ASCII and Latin-1): \<open>TitleSuggest.getSuggestions\<close> of main.ts returns the empty list
  for a query that is empty or all white space, and otherwise the past titles, in their
  order, that contain the query up to the case of the letters A to Z and U+00C0 to U+00DE
  (but for U+00D7). \<open>TitleInputModal.updateSuggestions\<close> of part\_000 shows nothing for the
  empty input and otherwise those same titles: an input of white space only is matched
  like any other.
\<close>

theorem suggestions_filter_titles:
  "getSuggestions titles query =
     (if list_all isSpace query then []
      else filter (\<lambda>t. containsIgnoringCase t query) titles)
   \<and> visibleSuggestions (updateSuggestions query m) =
     (if query = [] then []
      else filter (\<lambda>t. containsIgnoringCase t query) (pastTitles m))"
proof
  have "(query = [] \<or> length (trim query) = 0) = list_all isSpace query"
    using trim_empty_iff[of query] by auto
  then show "getSuggestions titles query =
     (if list_all isSpace query then []
      else filter (\<lambda>t. containsIgnoringCase t query) titles)"
    by (simp add: getSuggestions_def Let_def includes_lower)
next
  show "visibleSuggestions (updateSuggestions query m) =
     (if query = [] then []
      else filter (\<lambda>t. containsIgnoringCase t query) (pastTitles m))"
    by (simp add: updateSuggestions_def visibleSuggestions_def hideSuggestions_def Let_def
          includes_lower toLowerCase_Nil)
qed

theorem suggestions_filter_titles_witness:
  "getSuggestions [''Daily log'', ''Ideas''] ''LOG'' = [''Daily log'']
   \<and> getSuggestions [''Daily log'', ''Ideas''] ''  '' = []
   \<and> visibleSuggestions (updateSuggestions ''LOG'' closedModal) = [''Daily log'']
   \<and> visibleSuggestions (updateSuggestions [] closedModal) = []
   \<and> containsIgnoringCase ''Daily log'' ''LOG''
   \<and> \<not> containsIgnoringCase ''Ideas'' ''LOG''"
proof -
  have a: "containsIgnoringCase ''Daily log'' ''LOG''" "\<not> containsIgnoringCase ''Ideas'' ''LOG''"
    by (simp_all add: containsIgnoringCase_def sameLetter_def isCapital_def less_eq_char_def)
  have s: "\<not> list_all isSpace ''LOG''" "list_all isSpace ''  ''" by (simp_all add: isSpace_def)
  from suggestions_filter_titles[of "[''Daily log'', ''Ideas'']" "''LOG''" closedModal] a s
  have b: "getSuggestions [''Daily log'', ''Ideas''] ''LOG'' = [''Daily log'']"
    "visibleSuggestions (updateSuggestions ''LOG'' closedModal) = [''Daily log'']"
    by (simp_all add: closedModal_def)
  from suggestions_filter_titles[of "[''Daily log'', ''Ideas'']" "''  ''" closedModal] s
  have c: "getSuggestions [''Daily log'', ''Ideas''] ''  '' = []" by simp
  from suggestions_filter_titles[of "[]" "[]" closedModal]
  have d: "visibleSuggestions (updateSuggestions [] closedModal) = []" by simp
  from a b c d show ?thesis by (intro conjI)
qed

text \<open>
  In part\_000 an input of one space is not empty, and the dropdown shows the past titles
  that contain a space.
\<close>

theorem updateSuggestions_space_query:
  "visibleSuggestions (updateSuggestions '' '' closedModal) = [''Daily log'']
   \<and> getSuggestions (pastTitles closedModal) '' '' = []"
  by (simp add: updateSuggestions_def visibleSuggestions_def hideSuggestions_def closedModal_def
        getSuggestions_def trim_def isSpace_def toLowerCase_def toLowerChar_def
        includes_str_def sublist_Cons_right Let_def)

end
